theory Spec2Isabelle
  imports Complex_Main
begin

section \<open>Python values\<close>

text \<open>
  The program is the bidirectional comparison engine of \<^verbatim>\<open>video_batch_compare.py\<close>.
  Python floats are modelled as real numbers (rounding, infinities and NaN are left out),
  Python strings as lists of 8-bit characters (code points below 256), and the result
  dictionaries as maps from their string keys to values.
\<close>

datatype error = ValueError | ZeroDivisionError | IndexError | OSError | RuntimeError

datatype pyval = PStr string | PNum real

type_synonym pydict = "string \<rightharpoonup> pyval"

text \<open>\<^verbatim>\<open>d.get(key, default)\<close>\<close>

definition dict_get :: "pydict \<Rightarrow> string \<Rightarrow> pyval \<Rightarrow> pyval" where
  "dict_get d k dflt = (case d k of None \<Rightarrow> dflt | Some v \<Rightarrow> v)"

section \<open>Winner decision for video\<close>

text \<open>The thresholds set in \<^verbatim>\<open>__init__\<close>.\<close>

definition vmaf_win_threshold :: real where
  "vmaf_win_threshold = 2.0"

definition ssim_win_threshold :: real where
  "ssim_win_threshold = 0.01"

definition psnr_win_threshold :: real where
  "psnr_win_threshold = 2.0"

text \<open>The dictionary \<^verbatim>\<open>{"winner": "tie", "left_score": 0, "right_score": 0}\<close>.\<close>

definition tie_result :: pydict where
  "tie_result = [''winner'' \<mapsto> PStr ''tie'', ''left_score'' \<mapsto> PNum 0, ''right_score'' \<mapsto> PNum 0]"

text \<open>
  \<^verbatim>\<open>determine_video_winner(left_as_ref_score, right_as_ref_score, metric, row_idx)\<close>.
  A score is \<open>None\<close> when the directional run was unavailable. The row index is used for
  the log line only; the log queue is unbounded and its \<^verbatim>\<open>put\<close> does not raise, so the
  handler of the enclosing \<^verbatim>\<open>try\<close> is never entered and logging is left out.
\<close>

definition determine_video_winner :: "real option \<Rightarrow> real option \<Rightarrow> string \<Rightarrow> pydict" where
  "determine_video_winner left_as_ref_score right_as_ref_score metric =
     (case left_as_ref_score of
        None \<Rightarrow> tie_result
      | Some left_quality \<Rightarrow>
          (case right_as_ref_score of
             None \<Rightarrow> tie_result
           | Some right_quality \<Rightarrow>
               if metric = ''VMAF'' then
                 (let winner =
                        (if \<bar>left_quality - right_quality\<bar> < vmaf_win_threshold then ''tie''
                         else if left_quality > right_quality then ''left''
                         else ''right'')
                  in [''winner'' \<mapsto> PStr winner,
                      ''left_score'' \<mapsto> PNum left_quality,
                      ''right_score'' \<mapsto> PNum right_quality])
               else
                 (let winner =
                        (if \<bar>left_quality - right_quality\<bar> < ssim_win_threshold then ''tie''
                         else if left_quality > right_quality then ''left''
                         else ''right'')
                  in [''winner'' \<mapsto> PStr winner,
                      ''left_score'' \<mapsto> PNum left_quality,
                      ''right_score'' \<mapsto> PNum right_quality])))"

section \<open>Text primitives\<close>

text \<open>
  The characters \<^verbatim>\<open>str.isspace\<close> and the pattern \<^verbatim>\<open>\s\<close> accept among the code points
  below 256: tab to carriage return, the four separators 28 to 31, space, NEL and the
  no-break space.
\<close>

definition py_isspace :: "char \<Rightarrow> bool" where
  "py_isspace c = (of_char c \<in> {9, 10, 11, 12, 13, 28, 29, 30, 31, 32, 133, 160 :: nat})"

text \<open>The classes \<^verbatim>\<open>[0-9]\<close> (also \<^verbatim>\<open>\d\<close> below code point 256) and \<^verbatim>\<open>[0-9.]\<close>.\<close>

definition is_digit :: "char \<Rightarrow> bool" where
  "is_digit c = (c \<in> set ''0123456789'')"

definition numchar :: "char \<Rightarrow> bool" where
  "numchar c = (is_digit c \<or> c = CHR ''.'')"

definition newline :: char where
  "newline = CHR 0x0A"

text \<open>A literal of a pattern, matched at the start of the text: the rest, if it matches.\<close>

fun lit :: "string \<Rightarrow> string \<Rightarrow> string option" where
  "lit [] s = Some s"
| "lit (p # ps) [] = None"
| "lit (p # ps) (c # cs) = (if p = c then lit ps cs else None)"

text \<open>\<^verbatim>\<open>sub in s\<close> for strings.\<close>

fun contains :: "string \<Rightarrow> string \<Rightarrow> bool" where
  "contains sub [] = (sub = [])"
| "contains sub (c # cs) = (lit sub (c # cs) \<noteq> None \<or> contains sub cs)"

text \<open>\<^verbatim>\<open>s.strip()\<close> and \<^verbatim>\<open>s.split('\n')\<close>.\<close>

definition py_strip :: "string \<Rightarrow> string" where
  "py_strip s = rev (dropWhile py_isspace (rev (dropWhile py_isspace s)))"

fun py_split_nl :: "string \<Rightarrow> string list" where
  "py_split_nl [] = [[]]"
| "py_split_nl (c # cs) =
     (if c = newline then [] # py_split_nl cs
      else (case py_split_nl cs of [] \<Rightarrow> [[c]] | l # ls \<Rightarrow> (c # l) # ls))"

text \<open>
  \<^verbatim>\<open>re.search\<close>: the match at the leftmost position where the pattern matches. The
  argument \<open>m\<close> is the pattern matched at the start of a text; it gives the captured
  group and the text after the match.
\<close>

fun re_search :: "(string \<Rightarrow> (string \<times> string) option) \<Rightarrow> string \<Rightarrow> string option" where
  "re_search m [] = map_option fst (m [])"
| "re_search m (c # cs) =
     (case m (c # cs) of Some (g, rest) \<Rightarrow> Some g | None \<Rightarrow> re_search m cs)"

text \<open>
  \<^verbatim>\<open>re.findall\<close> for a pattern with one group: the groups of the successive
  non-overlapping matches, left to right. After a match the scan goes on where the
  match ended, and one character further when the match was empty.
\<close>

fun re_findall :: "(string \<Rightarrow> (string \<times> string) option) \<Rightarrow> string \<Rightarrow> string list" where
  "re_findall m [] = (case m [] of Some (g, rest) \<Rightarrow> [g] | None \<Rightarrow> [])"
| "re_findall m (c # cs) =
     (case m (c # cs) of
        Some (g, rest) \<Rightarrow> g # re_findall m (drop (length cs - length rest) cs)
      | None \<Rightarrow> re_findall m cs)"

text \<open>
  \<^verbatim>\<open>.*?\<close> before the rest \<open>m\<close> of a pattern: the shortest stretch of characters other
  than a newline after which \<open>m\<close> matches.
\<close>

fun lazy_dots :: "(string \<Rightarrow> (string \<times> string) option) \<Rightarrow> string \<Rightarrow> (string \<times> string) option" where
  "lazy_dots m [] = m []"
| "lazy_dots m (c # cs) =
     (case m (c # cs) of
        Some r \<Rightarrow> Some r
      | None \<Rightarrow> if c = newline then None else lazy_dots m cs)"

text \<open>
  The group \<^verbatim>\<open>([0-9.]+)\<close>, and \<^verbatim>\<open>(\d+)\<close>: the longest run of characters of the class,
  which must not be empty. Every pattern below continues after the group with a
  character outside the class or ends with it, so giving characters back never
  produces a match the longest run does not.
\<close>

definition num_group :: "string \<Rightarrow> (string \<times> string) option" where
  "num_group s =
     (let g = takeWhile numchar s
      in if g = [] then None else Some (g, dropWhile numchar s))"

definition digit_group :: "string \<Rightarrow> (string \<times> string) option" where
  "digit_group s =
     (let g = takeWhile is_digit s
      in if g = [] then None else Some (g, dropWhile is_digit s))"

text \<open>\<^verbatim>\<open>\s*\<close> in front of a group or literal that starts with no white space.\<close>

definition skip_spaces :: "string \<Rightarrow> string" where
  "skip_spaces s = dropWhile py_isspace s"

section \<open>Numbers from text\<close>

definition digit_val :: "char \<Rightarrow> nat" where
  "digit_val c = of_char c - 48"

definition digits_val :: "string \<Rightarrow> nat" where
  "digits_val ds = foldl (\<lambda>n c. 10 * n + digit_val c) 0 ds"

text \<open>
  \<^verbatim>\<open>float(token)\<close> on a token of digits and dots, with an optional minus sign in front
  (all that the patterns of this program capture): digits with at most one dot and at
  least one digit; anything else raises \<open>ValueError\<close>.
\<close>

definition py_float_unsigned :: "string \<Rightarrow> error + real" where
  "py_float_unsigned tok =
     (let ip = takeWhile is_digit tok
      in case dropWhile is_digit tok of
           [] \<Rightarrow> if ip = [] then Inl ValueError else Inr (real (digits_val ip))
         | c # fp \<Rightarrow>
             if c = CHR ''.'' \<and> list_all is_digit fp \<and> (ip \<noteq> [] \<or> fp \<noteq> [])
             then Inr (real (digits_val ip) + real (digits_val fp) / 10 ^ length fp)
             else Inl ValueError)"

definition py_float :: "string \<Rightarrow> error + real" where
  "py_float tok =
     (case tok of
        [] \<Rightarrow> Inl ValueError
      | c # cs \<Rightarrow>
          if c = CHR ''-''
          then (case py_float_unsigned cs of Inl e \<Rightarrow> Inl e | Inr x \<Rightarrow> Inr (- x))
          else py_float_unsigned tok)"

section \<open>Output parsers\<close>

text \<open>The pattern \<^verbatim>\<open>VMAF score:\s*([0-9.]+)\<close>.\<close>

definition pat_vmaf_score :: "string \<Rightarrow> (string \<times> string) option" where
  "pat_vmaf_score s =
     (case lit ''VMAF score:'' s of None \<Rightarrow> None | Some r \<Rightarrow> num_group (skip_spaces r))"

text \<open>The pattern \<^verbatim>\<open>VMAF.*?([0-9.]+)\<close>.\<close>

definition pat_vmaf_any :: "string \<Rightarrow> (string \<times> string) option" where
  "pat_vmaf_any s =
     (case lit ''VMAF'' s of None \<Rightarrow> None | Some r \<Rightarrow> lazy_dots num_group r)"

text \<open>
  The body of the \<^verbatim>\<open>try\<close> in \<^verbatim>\<open>parse_single_vmaf_output\<close>: \<open>Inl\<close> is an exception
  raised in it, \<open>Inr None\<close> the return of \<open>None\<close>.
\<close>

definition parse_single_vmaf_output_body :: "string \<Rightarrow> error + real option" where
  "parse_single_vmaf_output_body output =
     (case re_search pat_vmaf_score output of
        Some tok \<Rightarrow> (case py_float tok of Inl e \<Rightarrow> Inl e | Inr score \<Rightarrow> Inr (Some score))
      | None \<Rightarrow>
          (let vmaf_matches = re_findall pat_vmaf_any output
           in if vmaf_matches \<noteq> []
              then (case py_float (last vmaf_matches) of
                      Inl e \<Rightarrow> Inl e
                    | Inr score \<Rightarrow> Inr (Some score))
              else Inr None))"

text \<open>\<^verbatim>\<open>parse_single_vmaf_output\<close>: the handler logs the exception and returns \<open>None\<close>.\<close>

definition parse_single_vmaf_output :: "string \<Rightarrow> error + real option" where
  "parse_single_vmaf_output output =
     (case parse_single_vmaf_output_body output of Inl e \<Rightarrow> Inr None | Inr r \<Rightarrow> Inr r)"

text \<open>The patterns \<^verbatim>\<open>All:([0-9.]+)\<close>, \<^verbatim>\<open>SSIM.*?All:([0-9.]+)\<close> and \<^verbatim>\<open>Y:([0-9.]+)\<close>.\<close>

definition pat_all :: "string \<Rightarrow> (string \<times> string) option" where
  "pat_all s = (case lit ''All:'' s of None \<Rightarrow> None | Some r \<Rightarrow> num_group r)"

definition pat_ssim_all :: "string \<Rightarrow> (string \<times> string) option" where
  "pat_ssim_all s = (case lit ''SSIM'' s of None \<Rightarrow> None | Some r \<Rightarrow> lazy_dots pat_all r)"

definition pat_y :: "string \<Rightarrow> (string \<times> string) option" where
  "pat_y s = (case lit ''Y:'' s of None \<Rightarrow> None | Some r \<Rightarrow> num_group r)"

text \<open>
  The loop over \<^verbatim>\<open>reversed(lines)\<close> in \<^verbatim>\<open>parse_single_ssim_output\<close>, given the lines
  already reversed: \<open>Inr None\<close> when the loop ends without a return.
\<close>

fun ssim_line_scan :: "string list \<Rightarrow> error + real option" where
  "ssim_line_scan [] = Inr None"
| "ssim_line_scan (line # lines) =
     (if contains ''All:'' line \<and> (contains ''Y:'' line \<or> contains ''SSIM'' line) then
        (case re_search pat_all line of
           Some tok \<Rightarrow> (case py_float tok of Inl e \<Rightarrow> Inl e | Inr score \<Rightarrow> Inr (Some score))
         | None \<Rightarrow> ssim_line_scan lines)
      else ssim_line_scan lines)"

definition parse_single_ssim_output_body :: "string \<Rightarrow> error + real option" where
  "parse_single_ssim_output_body output =
     (case re_search pat_all output of
        Some tok \<Rightarrow> (case py_float tok of Inl e \<Rightarrow> Inl e | Inr score \<Rightarrow> Inr (Some score))
      | None \<Rightarrow>
     (case re_search pat_ssim_all output of
        Some tok \<Rightarrow> (case py_float tok of Inl e \<Rightarrow> Inl e | Inr score \<Rightarrow> Inr (Some score))
      | None \<Rightarrow>
     (case ssim_line_scan (rev (py_split_nl (py_strip output))) of
        Inl e \<Rightarrow> Inl e
      | Inr (Some score) \<Rightarrow> Inr (Some score)
      | Inr None \<Rightarrow>
     (case re_search pat_y output of
        Some tok \<Rightarrow> (case py_float tok of Inl e \<Rightarrow> Inl e | Inr score \<Rightarrow> Inr (Some score))
      | None \<Rightarrow> Inr None))))"

definition parse_single_ssim_output :: "string \<Rightarrow> error + real option" where
  "parse_single_ssim_output output =
     (case parse_single_ssim_output_body output of Inl e \<Rightarrow> Inr None | Inr r \<Rightarrow> Inr r)"

text \<open>The patterns \<^verbatim>\<open>PSNR\s+ch0:\s*([0-9.]+)\<close> and \<^verbatim>\<open>([0-9.]+)\s*dB\<close>.\<close>

definition pat_psnr_ch0 :: "string \<Rightarrow> (string \<times> string) option" where
  "pat_psnr_ch0 s =
     (case lit ''PSNR'' s of
        None \<Rightarrow> None
      | Some r \<Rightarrow>
          if takeWhile py_isspace r = [] then None
          else (case lit ''ch0:'' (skip_spaces r) of
                  None \<Rightarrow> None
                | Some r' \<Rightarrow> num_group (skip_spaces r')))"

definition pat_db :: "string \<Rightarrow> (string \<times> string) option" where
  "pat_db s =
     (case num_group s of
        None \<Rightarrow> None
      | Some (g, r) \<Rightarrow>
          (case lit ''dB'' (skip_spaces r) of None \<Rightarrow> None | Some rest \<Rightarrow> Some (g, rest)))"

definition parse_single_audio_output_body :: "string \<Rightarrow> error + real option" where
  "parse_single_audio_output_body output =
     (case re_search pat_psnr_ch0 output of
        Some tok \<Rightarrow> (case py_float tok of Inl e \<Rightarrow> Inl e | Inr score \<Rightarrow> Inr (Some score))
      | None \<Rightarrow>
          (let psnr_matches = re_findall pat_db output
           in if psnr_matches \<noteq> []
              then (case py_float (last psnr_matches) of
                      Inl e \<Rightarrow> Inl e
                    | Inr score \<Rightarrow> Inr (Some score))
              else Inr None))"

definition parse_single_audio_output :: "string \<Rightarrow> error + real option" where
  "parse_single_audio_output output =
     (case parse_single_audio_output_body output of Inl e \<Rightarrow> Inr None | Inr r \<Rightarrow> Inr r)"

text \<open>\<^verbatim>\<open>parse_single_video_output\<close>: dispatch on the metric, under its own handler.\<close>

definition parse_single_video_output :: "string \<Rightarrow> string \<Rightarrow> error + real option" where
  "parse_single_video_output output metric =
     (case (if metric = ''VMAF'' then parse_single_vmaf_output output
            else parse_single_ssim_output output) of
        Inl e \<Rightarrow> Inr None
      | Inr r \<Rightarrow> Inr r)"

section \<open>The environment of a run and its effects\<close>

text \<open>
  What an external process does, as the monitoring loops see it: the results of the
  successive \<^verbatim>\<open>readline()\<close> calls while the process has not exited (an empty string is
  an end of stream with the process still alive), then what \<^verbatim>\<open>read()\<close> returns after the
  loop, and the exit code. The list is finite: the process exits at some point.
\<close>

record proc_run =
  reads :: "string list"
  remaining :: string
  returncode :: int

text \<open>
  The environment of one thread of a run: the value \<^verbatim>\<open>stop_event.is_set()\<close> has at the
  thread's successive reads of the flag (other threads set it), what \<^verbatim>\<open>subprocess.Popen\<close>
  gives for a command (or the exception it raises), the standard output of the frame
  counting query (or the exception of \<^verbatim>\<open>subprocess.run\<close>), what reading the metric
  selector gives, and the two file lists.
\<close>

record env =
  stop_readings :: "nat \<Rightarrow> bool"
  popen :: "string list \<Rightarrow> error + proc_run"
  ffprobe :: "string \<Rightarrow> error + string"
  current_metric :: "error + string"
  left_files :: "string list"
  right_files :: "string list"

text \<open>
  The observable effects: a call of one of the measurement functions, a process started,
  a progress update put on the progress queue (row, channel, value).
\<close>

datatype event =
    Call string "string list"
  | Popen "string list"
  | Progress nat string int

text \<open>The state of a thread: how many times it has read the flag, and its effects so far.\<close>

record state =
  clock :: nat
  trace :: "event list"

definition is_set :: "env \<Rightarrow> state \<Rightarrow> bool \<times> state" where
  "is_set e s = (stop_readings e (clock s), s\<lparr>clock := Suc (clock s)\<rparr>)"

definition emit :: "event \<Rightarrow> state \<Rightarrow> state" where
  "emit ev s = s\<lparr>trace := trace s @ [ev]\<rparr>"

text \<open>\<^verbatim>\<open>update_progress(row_id, progress_type, value)\<close>, the row given by its index.\<close>

definition update_progress :: "nat \<Rightarrow> string \<Rightarrow> int \<Rightarrow> state \<Rightarrow> state" where
  "update_progress row_idx progress_type v s = emit (Progress row_idx progress_type v) s"

text \<open>The calls of a measurement function in a trace, by their arguments.\<close>

fun calls_of :: "string \<Rightarrow> event list \<Rightarrow> string list list" where
  "calls_of f [] = []"
| "calls_of f (Call g args # evs) = (if g = f then args # calls_of f evs else calls_of f evs)"
| "calls_of f (ev # evs) = calls_of f evs"

text \<open>The commands of the processes started in a trace.\<close>

fun popens :: "event list \<Rightarrow> string list list" where
  "popens [] = []"
| "popens (Popen cmd # evs) = cmd # popens evs"
| "popens (ev # evs) = popens evs"

section \<open>Progress estimate\<close>

text \<open>
  \<^verbatim>\<open>str.isdigit\<close> (below code point 256 the digits and the superscripts one, two and
  three) and \<^verbatim>\<open>int\<close> on a string that passed it, which raises on a superscript.
\<close>

definition py_isdigit :: "string \<Rightarrow> bool" where
  "py_isdigit s = (s \<noteq> [] \<and> list_all (\<lambda>c. is_digit c \<or> of_char c \<in> {178, 179, 185 :: nat}) s)"

definition py_int :: "string \<Rightarrow> error + nat" where
  "py_int s = (if s \<noteq> [] \<and> list_all is_digit s then Inr (digits_val s) else Inl ValueError)"

text \<open>\<^verbatim>\<open>get_total_frames(video_path)\<close>; it has no handler of its own.\<close>

definition get_total_frames :: "env \<Rightarrow> string \<Rightarrow> error + nat option" where
  "get_total_frames e video_path =
     (case ffprobe e video_path of
        Inl err \<Rightarrow> Inl err
      | Inr out \<Rightarrow>
          if py_isdigit (py_strip out)
          then (case py_int (py_strip out) of Inl err \<Rightarrow> Inl err | Inr n \<Rightarrow> Inr (Some n))
          else Inr None)"

text \<open>\<^verbatim>\<open>max(1, self.get_total_frames(reference_file) or 0)\<close>.\<close>

definition total_frames_of :: "nat option \<Rightarrow> nat" where
  "total_frames_of r = max 1 (case r of None \<Rightarrow> 0 | Some n \<Rightarrow> n)"

text \<open>The pattern \<^verbatim>\<open>frame=\s*(\d+)\<close>.\<close>

definition pat_frame :: "string \<Rightarrow> (string \<times> string) option" where
  "pat_frame s =
     (case lit ''frame='' s of None \<Rightarrow> None | Some r \<Rightarrow> digit_group (skip_spaces r))"

text \<open>
  The body of the \<^verbatim>\<open>try\<close> in \<^verbatim>\<open>extract_ffmpeg_progress\<close>. The division is the one
  operation that can raise; \<^verbatim>\<open>int\<close> of a value that is not negative is its floor.
\<close>

definition extract_ffmpeg_progress_body ::
  "string \<Rightarrow> nat \<Rightarrow> string \<Rightarrow> string \<Rightarrow> nat \<Rightarrow> state \<Rightarrow> error + state" where
  "extract_ffmpeg_progress_body output_line row_idx media_type comparison_type total_frames s =
     (case re_search pat_frame output_line of
        None \<Rightarrow> Inr s
      | Some tok \<Rightarrow>
          (let curr_frame = digits_val tok
           in if curr_frame > 0 then
                (let base_progress = (if comparison_type = ''left_ref'' then 10 else 55 :: int)
                 in if total_frames = 0 then Inl ZeroDivisionError
                    else
                      (let additional_progress =
                             \<lfloor>min 1 (real curr_frame / real total_frames) * 45\<rfloor>
                       in if media_type = ''video''
                          then Inr (update_progress row_idx ''video''
                                      (base_progress + additional_progress) s)
                          else Inr s))
              else Inr s))"

text \<open>\<^verbatim>\<open>extract_ffmpeg_progress\<close>: the bare \<^verbatim>\<open>except\<close> passes.\<close>

definition extract_ffmpeg_progress ::
  "string \<Rightarrow> nat \<Rightarrow> string \<Rightarrow> string \<Rightarrow> nat \<Rightarrow> state \<Rightarrow> state" where
  "extract_ffmpeg_progress output_line row_idx media_type comparison_type total_frames s =
     (case extract_ffmpeg_progress_body output_line row_idx media_type comparison_type
             total_frames s of
        Inl err \<Rightarrow> s
      | Inr s' \<Rightarrow> s')"

section \<open>Running one measurement\<close>

text \<open>
  The monitoring loop the three runners share: before each \<^verbatim>\<open>readline()\<close> the flag is
  read, and a set flag terminates the process and returns \<open>None\<close>; a line that is not
  empty is appended to the captured text and handed to \<open>on_line\<close>; the loop ends when
  the process has exited and the stream is at its end.
\<close>

fun monitor ::
  "env \<Rightarrow> (string \<Rightarrow> state \<Rightarrow> state) \<Rightarrow> string list \<Rightarrow> string \<Rightarrow> state \<Rightarrow> string option \<times> state" where
  "monitor e on_line [] acc s =
     (case is_set e s of (stop, s1) \<Rightarrow> if stop then (None, s1) else (Some acc, s1))"
| "monitor e on_line (out # outs) acc s =
     (case is_set e s of (stop, s1) \<Rightarrow>
        if stop then (None, s1)
        else if out \<noteq> [] then monitor e on_line outs (acc @ out) (on_line out s1)
        else monitor e on_line outs acc s1)"

definition video_cmd :: "string \<Rightarrow> string \<Rightarrow> string \<Rightarrow> string list" where
  "video_cmd reference_file distorted_file metric =
     (if metric = ''VMAF''
      then [''ffmpeg'', ''-i'', reference_file, ''-i'', distorted_file,
            ''-lavfi'', ''libvmaf=log_fmt=json'', ''-f'', ''null'', ''-'']
      else [''ffmpeg'', ''-i'', reference_file, ''-i'', distorted_file,
            ''-lavfi'', ''ssim'', ''-f'', ''null'', ''-''])"

definition audio_cmd :: "string \<Rightarrow> string \<Rightarrow> string list" where
  "audio_cmd reference_file distorted_file =
     [''ffmpeg'', ''-i'', reference_file, ''-i'', distorted_file,
      ''-lavfi'', ''[0:a][1:a]apsnr'', ''-f'', ''null'', ''-'']"

definition loudness_cmd :: "string \<Rightarrow> string list" where
  "loudness_cmd file_path =
     [''ffmpeg'', ''-i'', file_path, ''-af'', ''ebur128=peak=true'', ''-f'', ''null'', ''-'']"

text \<open>
  \<^verbatim>\<open>run_single_video_comparison\<close>. Every exception of the body (of the frame count, of
  starting the process) ends in the handler, which returns \<open>None\<close>.
\<close>

definition run_single_video_comparison ::
  "env \<Rightarrow> string \<Rightarrow> string \<Rightarrow> string \<Rightarrow> string \<Rightarrow> nat \<Rightarrow> state \<Rightarrow> real option \<times> state" where
  "run_single_video_comparison e reference_file distorted_file metric comparison_type row_idx s =
     (case is_set e (emit (Call ''run_single_video_comparison'' [reference_file, distorted_file]) s) of
        (stop, s1) \<Rightarrow>
          if stop then (None, s1)
          else
            (case get_total_frames e reference_file of
               Inl err \<Rightarrow> (None, s1)
             | Inr frames \<Rightarrow>
                 (let total_frames = total_frames_of frames;
                      cmd = video_cmd reference_file distorted_file metric;
                      s2 = emit (Popen cmd) s1
                  in case popen e cmd of
                       Inl err \<Rightarrow> (None, s2)
                     | Inr process \<Rightarrow>
                         (case monitor e
                                 (\<lambda>out. extract_ffmpeg_progress out row_idx ''video''
                                           comparison_type total_frames)
                                 (reads process) [] s2 of
                            (None, s3) \<Rightarrow> (None, s3)
                          | (Some captured, s3) \<Rightarrow>
                              (let stderr_output = captured @ remaining process
                               in if returncode process \<noteq> 0 then (None, s3)
                                  else (case parse_single_video_output stderr_output metric of
                                          Inl err \<Rightarrow> (None, s3)
                                        | Inr score \<Rightarrow> (score, s3)))))))"

text \<open>\<^verbatim>\<open>run_single_audio_comparison\<close>.\<close>

definition run_single_audio_comparison ::
  "env \<Rightarrow> string \<Rightarrow> string \<Rightarrow> state \<Rightarrow> real option \<times> state" where
  "run_single_audio_comparison e reference_file distorted_file s =
     (case is_set e (emit (Call ''run_single_audio_comparison'' [reference_file, distorted_file]) s) of
        (stop, s1) \<Rightarrow>
          if stop then (None, s1)
          else
            (let cmd = audio_cmd reference_file distorted_file;
                 s2 = emit (Popen cmd) s1
             in case popen e cmd of
                  Inl err \<Rightarrow> (None, s2)
                | Inr process \<Rightarrow>
                    (case monitor e (\<lambda>out s. s) (reads process) [] s2 of
                       (None, s3) \<Rightarrow> (None, s3)
                     | (Some captured, s3) \<Rightarrow>
                         (let stderr_output = captured @ remaining process
                          in if returncode process \<noteq> 0 then (None, s3)
                             else (case parse_single_audio_output stderr_output of
                                     Inl err \<Rightarrow> (None, s3)
                                   | Inr score \<Rightarrow> (score, s3))))))"

text \<open>
  The group \<^verbatim>\<open>(-?\d+\.?\d*)\<close> and the pattern
  \<^verbatim>\<open>Integrated loudness:\s*(-?\d+\.?\d*)\s*LUFS\<close>.
\<close>

definition signed_group :: "string \<Rightarrow> (string \<times> string) option" where
  "signed_group s =
     (let sign = (case s of c # cs \<Rightarrow> if c = CHR ''-'' then [c] else [] | [] \<Rightarrow> []);
          r0 = drop (length sign) s;
          ip = takeWhile is_digit r0
      in if ip = [] then None
         else (case dropWhile is_digit r0 of
                 [] \<Rightarrow> Some (sign @ ip, [])
               | c # cs \<Rightarrow>
                   if c = CHR ''.''
                   then Some (sign @ ip @ [c] @ takeWhile is_digit cs, dropWhile is_digit cs)
                   else Some (sign @ ip, c # cs)))"

definition pat_loudness :: "string \<Rightarrow> (string \<times> string) option" where
  "pat_loudness s =
     (case lit ''Integrated loudness:'' s of
        None \<Rightarrow> None
      | Some r \<Rightarrow>
          (case signed_group (skip_spaces r) of
             None \<Rightarrow> None
           | Some (g, r') \<Rightarrow>
               (case lit ''LUFS'' (skip_spaces r') of
                  None \<Rightarrow> None
                | Some rest \<Rightarrow> Some (g, rest))))"

text \<open>The loop over the lines of the captured text in \<^verbatim>\<open>get_audio_loudness\<close>.\<close>

fun loudness_scan :: "string list \<Rightarrow> error + real option" where
  "loudness_scan [] = Inr None"
| "loudness_scan (line # lines) =
     (if contains ''Integrated loudness:'' line then
        (case re_search pat_loudness line of
           Some tok \<Rightarrow> (case py_float tok of Inl err \<Rightarrow> Inl err | Inr x \<Rightarrow> Inr (Some x))
         | None \<Rightarrow> loudness_scan lines)
      else loudness_scan lines)"

text \<open>\<^verbatim>\<open>get_audio_loudness\<close>: the exit code is not looked at.\<close>

definition get_audio_loudness :: "env \<Rightarrow> string \<Rightarrow> state \<Rightarrow> real option \<times> state" where
  "get_audio_loudness e file_path s =
     (case is_set e (emit (Call ''get_audio_loudness'' [file_path]) s) of
        (stop, s1) \<Rightarrow>
          if stop then (None, s1)
          else
            (let cmd = loudness_cmd file_path;
                 s2 = emit (Popen cmd) s1
             in case popen e cmd of
                  Inl err \<Rightarrow> (None, s2)
                | Inr process \<Rightarrow>
                    (case monitor e (\<lambda>out s. s) (reads process) [] s2 of
                       (None, s3) \<Rightarrow> (None, s3)
                     | (Some captured, s3) \<Rightarrow>
                         (case loudness_scan (py_split_nl (captured @ remaining process)) of
                            Inl err \<Rightarrow> (None, s3)
                          | Inr loudness \<Rightarrow> (loudness, s3)))))"

section \<open>Winner decision for audio\<close>

text \<open>\<^verbatim>\<open>run_audio_analysis_fallback\<close>: the loudness of each file, measured on its own.\<close>

definition run_audio_analysis_fallback ::
  "env \<Rightarrow> string \<Rightarrow> string \<Rightarrow> state \<Rightarrow> pydict \<times> state" where
  "run_audio_analysis_fallback e left_file right_file s =
     (case is_set e s of (stop, s1) \<Rightarrow>
        if stop then (tie_result, s1)
        else
     (case get_audio_loudness e left_file s1 of (left_loudness, s2) \<Rightarrow>
     (case is_set e s2 of (stop, s3) \<Rightarrow>
        if stop then (tie_result, s3)
        else
     (case get_audio_loudness e right_file s3 of (right_loudness, s4) \<Rightarrow>
     (case is_set e s4 of (stop, s5) \<Rightarrow>
        if stop then (tie_result, s5)
        else
          (case left_loudness of
             None \<Rightarrow> (tie_result, s5)
           | Some l \<Rightarrow>
               (case right_loudness of
                  None \<Rightarrow> (tie_result, s5)
                | Some r \<Rightarrow>
                    (let winner = (if l > r then ''left'' else ''right'');
                         winner = (if \<bar>l - r\<bar> < 1.0 then ''tie'' else winner)
                     in ([''winner'' \<mapsto> PStr winner,
                          ''left_score'' \<mapsto> PNum l,
                          ''right_score'' \<mapsto> PNum r], s5)))))))))"

text \<open>
  \<^verbatim>\<open>determine_audio_winner\<close>. The fallback reads the row's files from the two lists;
  an index out of range raises \<open>IndexError\<close>, which the handler turns into the tie
  result.
\<close>

definition determine_audio_winner ::
  "env \<Rightarrow> real option \<Rightarrow> real option \<Rightarrow> nat \<Rightarrow> state \<Rightarrow> pydict \<times> state" where
  "determine_audio_winner e left_as_ref_score right_as_ref_score row_idx s =
     (if left_as_ref_score = None \<or> right_as_ref_score = None then
        (if row_idx < length (left_files e) \<and> row_idx < length (right_files e)
         then run_audio_analysis_fallback e (left_files e ! row_idx) (right_files e ! row_idx) s
         else (tie_result, s))
      else
        (let left_quality = the left_as_ref_score;
             right_quality = the right_as_ref_score;
             winner =
               (if \<bar>left_quality - right_quality\<bar> < 1.0 then ''tie''
                else if left_quality > right_quality then ''left''
                else ''right'')
         in ([''winner'' \<mapsto> PStr winner,
              ''left_score'' \<mapsto> PNum left_quality,
              ''right_score'' \<mapsto> PNum right_quality], s)))"

section \<open>Row comparator\<close>

text \<open>\<^verbatim>\<open>run_video_comparison\<close>: both directions, then the decision.\<close>

definition run_video_comparison ::
  "env \<Rightarrow> string \<Rightarrow> string \<Rightarrow> string \<Rightarrow> nat \<Rightarrow> state \<Rightarrow> pydict \<times> state" where
  "run_video_comparison e left_file right_file metric row_idx s =
     (case is_set e s of (stop, s1) \<Rightarrow>
        if stop then (tie_result, s1)
        else
     (case run_single_video_comparison e left_file right_file metric ''left_ref'' row_idx
             (update_progress row_idx ''video'' 10 s1) of (left_as_ref_score, s2) \<Rightarrow>
     (case is_set e s2 of (stop, s3) \<Rightarrow>
        if stop then (tie_result, s3)
        else
     (case run_single_video_comparison e right_file left_file metric ''right_ref'' row_idx
             (update_progress row_idx ''video'' 55 s3) of (right_as_ref_score, s4) \<Rightarrow>
     (case is_set e s4 of (stop, s5) \<Rightarrow>
        if stop then (tie_result, s5)
        else (determine_video_winner left_as_ref_score right_as_ref_score metric,
              update_progress row_idx ''video'' 100 s5))))))"

text \<open>\<^verbatim>\<open>run_audio_comparison\<close>: both directions of the audio PSNR, then the decision.\<close>

definition run_audio_comparison ::
  "env \<Rightarrow> string \<Rightarrow> string \<Rightarrow> nat \<Rightarrow> state \<Rightarrow> pydict \<times> state" where
  "run_audio_comparison e left_file right_file row_idx s =
     (case is_set e s of (stop, s1) \<Rightarrow>
        if stop then (tie_result, s1)
        else
     (case run_single_audio_comparison e left_file right_file
             (update_progress row_idx ''audio'' 25 s1) of (left_as_ref_score, s2) \<Rightarrow>
     (case is_set e s2 of (stop, s3) \<Rightarrow>
        if stop then (tie_result, s3)
        else
     (case run_single_audio_comparison e right_file left_file
             (update_progress row_idx ''audio'' 50 s3) of (right_as_ref_score, s4) \<Rightarrow>
     (case is_set e s4 of (stop, s5) \<Rightarrow>
        if stop then (tie_result, s5)
        else determine_audio_winner e left_as_ref_score right_as_ref_score row_idx
               (update_progress row_idx ''audio'' 75 s5))))))"

text \<open>
  \<^verbatim>\<open>compare_row\<close>: \<open>None\<close> is the return of \<open>None\<close>, at a check of the flag or from the
  handler. The metric selector is read in the body, between the first progress update
  and the video comparison.
\<close>

definition compare_row ::
  "env \<Rightarrow> nat \<Rightarrow> string \<Rightarrow> string \<Rightarrow> state \<Rightarrow> pydict option \<times> state" where
  "compare_row e row_idx left_file right_file s =
     (case is_set e s of (stop, s1) \<Rightarrow>
        if stop then (None, s1)
        else
     (case current_metric e of
        Inl err \<Rightarrow> (None, update_progress row_idx ''video'' 0 s1)
      | Inr metric \<Rightarrow>
     (case run_video_comparison e left_file right_file metric row_idx
             (update_progress row_idx ''video'' 0 s1) of (video_result, s2) \<Rightarrow>
     (case is_set e s2 of (stop, s3) \<Rightarrow>
        if stop then (None, s3)
        else
     (case run_audio_comparison e left_file right_file row_idx
             (update_progress row_idx ''audio'' 0 (update_progress row_idx ''video'' 100 s3))
        of (audio_result, s4) \<Rightarrow>
     (case is_set e s4 of (stop, s5) \<Rightarrow>
        if stop then (None, s5)
        else
          (Some [''video_winner'' \<mapsto> dict_get video_result ''winner'' (PStr ''tie''),
                 ''audio_winner'' \<mapsto> dict_get audio_result ''winner'' (PStr ''tie''),
                 ''video_score_left'' \<mapsto> dict_get video_result ''left_score'' (PNum 0),
                 ''video_score_right'' \<mapsto> dict_get video_result ''right_score'' (PNum 0),
                 ''audio_score_left'' \<mapsto> dict_get audio_result ''left_score'' (PNum 0),
                 ''audio_score_right'' \<mapsto> dict_get audio_result ''right_score'' (PNum 0)],
           update_progress row_idx ''audio'' 100 s5)))))))"

section \<open>Comparison scheduler\<close>

text \<open>
  The task list of \<^verbatim>\<open>run_comparisons\<close>: one task per index below the length of the
  shorter list.
\<close>

definition task_list :: "string list \<Rightarrow> string list \<Rightarrow> (nat \<times> string \<times> string) list" where
  "task_list left right =
     map (\<lambda>i. (i, left ! i, right ! i)) [0..<min (length left) (length right)]"

text \<open>
  The submission loop: the flag is read before each task is submitted to the pool, and
  a set flag ends the loop. The result is the list of the tasks submitted.
\<close>

fun submit_tasks ::
  "env \<Rightarrow> (nat \<times> string \<times> string) list \<Rightarrow> state \<Rightarrow> (nat \<times> string \<times> string) list \<times> state" where
  "submit_tasks e [] s = ([], s)"
| "submit_tasks e (task # tasks) s =
     (case is_set e s of (stop, s1) \<Rightarrow>
        if stop then ([], s1)
        else (case submit_tasks e tasks s1 of (submitted, s2) \<Rightarrow> (task # submitted, s2)))"

definition run_comparisons_submit :: "env \<Rightarrow> state \<Rightarrow> (nat \<times> string \<times> string) list \<times> state" where
  "run_comparisons_submit e s = submit_tasks e (task_list (left_files e) (right_files e)) s"

section \<open>Example inputs\<close>

text \<open>
  An environment in which nobody requests a stop, every process prints two progress
  lines and a VMAF score and exits with code 0, and the frame count is 20; and the
  initial state of a thread.
\<close>

definition example_env :: env where
  "example_env =
     \<lparr>stop_readings = (\<lambda>k. False),
      popen = (\<lambda>cmd. Inr \<lparr>reads = [''frame=  10 fps=25'', ''frame=  30 fps=25''],
                             remaining = ''VMAF score: 91.5'', returncode = 0\<rparr>),
      ffprobe = (\<lambda>path. Inr ''20''),
      current_metric = Inr ''VMAF'',
      left_files = [''l0'', ''l1'', ''l2'', ''l3'', ''l4''],
      right_files = [''r0'', ''r1'', ''r2'']\<rparr>"

definition initial_state :: state where
  "initial_state = \<lparr>clock = 0, trace = []\<rparr>"

text \<open>
  An environment for a row whose two files have an integrated loudness of -20.0 and
  -23.5 LUFS on the line the loudness measurement looks for.
\<close>

definition loudness_env :: env where
  "loudness_env =
     \<lparr>stop_readings = (\<lambda>k. False),
      popen = (\<lambda>cmd. if cmd = loudness_cmd ''l0''
                       then Inr \<lparr>reads = [''Integrated loudness: -20.0 LUFS''],
                                 remaining = [], returncode = 0\<rparr>
                       else if cmd = loudness_cmd ''r0''
                       then Inr \<lparr>reads = [''Integrated loudness: -23.5 LUFS''],
                                 remaining = [], returncode = 0\<rparr>
                       else Inl OSError),
      ffprobe = (\<lambda>path. Inr ''20''),
      current_metric = Inr ''VMAF'',
      left_files = [''l0''],
      right_files = [''r0'']\<rparr>"

section \<open>The winner decision: properties\<close>

lemma result_lookup:
  "[''winner'' \<mapsto> PStr w, ''left_score'' \<mapsto> PNum a, ''right_score'' \<mapsto> PNum b] ''winner'' = Some (PStr w)"
  "[''winner'' \<mapsto> PStr w, ''left_score'' \<mapsto> PNum a, ''right_score'' \<mapsto> PNum b] ''left_score'' = Some (PNum a)"
  "[''winner'' \<mapsto> PStr w, ''left_score'' \<mapsto> PNum a, ''right_score'' \<mapsto> PNum b] ''right_score'' = Some (PNum b)"
  by simp_all

lemma three_way:
  fixes a b t :: real
  assumes "0 < t"
  defines "w \<equiv> (if \<bar>a - b\<bar> < t then ''tie'' else if a > b then ''left'' else ''right'')"
  shows "(w = ''tie'' \<longleftrightarrow> \<bar>a - b\<bar> < t) \<and>
     (\<bar>a - b\<bar> = t \<longrightarrow> w \<noteq> ''tie'') \<and>
     (w = ''left'' \<longleftrightarrow> t \<le> \<bar>a - b\<bar> \<and> b < a) \<and>
     (w = ''right'' \<longleftrightarrow> t \<le> \<bar>a - b\<bar> \<and> a < b)"
proof -
  consider (tie) "\<bar>a - b\<bar> < t" | (left) "t \<le> \<bar>a - b\<bar>" "b < a" | (right) "t \<le> \<bar>a - b\<bar>" "a < b"
    using assms by linarith
  then show ?thesis
  proof cases
    case tie
    then show ?thesis by (simp add: w_def)
  next
    case left
    then show ?thesis by (simp add: w_def)
  next
    case right
    then show ?thesis by (simp add: w_def)
  qed
qed





text \<open>
  C4. When at least one directional video score is unavailable, the video decision
  returns the tie result, whose winner is tie and whose two scores are 0; the function
  has no operation that raises, so the row goes on with this result.
\<close>

theorem video_winner_unavailable:
  "l = None \<or> r = None \<Longrightarrow>
   determine_video_winner l r metric = tie_result \<and>
   tie_result ''winner'' = Some (PStr ''tie'') \<and>
   tie_result ''left_score'' = Some (PNum 0) \<and>
   tie_result ''right_score'' = Some (PNum 0)"
  by (cases l; cases r) (simp_all add: determine_video_winner_def tie_result_def)

theorem video_winner_unavailable_witness:
  "determine_video_winner None (Some 91.5) ''VMAF'' = tie_result \<and>
   determine_video_winner (Some 0.98) None ''SSIM'' = tie_result \<and>
   determine_video_winner None None ''VMAF'' = tie_result"
proof -
  have "determine_video_winner None (Some 91.5) ''VMAF'' = tie_result"
    using video_winner_unavailable [of None "Some 91.5" "''VMAF''"] by blast
  moreover have "determine_video_winner (Some 0.98) None ''SSIM'' = tie_result"
    using video_winner_unavailable [of "Some 0.98" None "''SSIM''"] by blast
  moreover have "determine_video_winner None None ''VMAF'' = tie_result"
    using video_winner_unavailable [of None None "''VMAF''"] by blast
  ultimately show ?thesis by blast
qed

section \<open>The output parsers: properties\<close>

lemma lit_Some_iff: "lit p s = Some r \<longleftrightarrow> s = p @ r"
  by (induction p s rule: lit.induct) auto

lemma num_group_None_iff: "num_group s = None \<longleftrightarrow> (\<forall>c r. s = c # r \<longrightarrow> \<not> numchar c)"
  by (cases s) (simp_all add: num_group_def Let_def)

lemma pat_all_Some_iff:
  "pat_all s \<noteq> None \<longleftrightarrow> (\<exists>c r. s = ''All:'' @ c # r \<and> numchar c)"
proof (cases "lit ''All:'' s")
  case None
  then have "\<And>r. s \<noteq> ''All:'' @ r"
    using lit_Some_iff [of "''All:''" s] by auto
  with None show ?thesis
    by (auto simp: pat_all_def)
next
  case (Some r)
  then have s: "s = ''All:'' @ r"
    by (simp add: lit_Some_iff)
  show ?thesis
    using Some num_group_None_iff [of r] by (auto simp: pat_all_def s)
qed

lemma re_search_None_iff:
  "re_search m s = None \<longleftrightarrow> (\<forall>pre suf. s = pre @ suf \<longrightarrow> m suf = None)"
proof (induction s)
  case Nil
  then show ?case by simp
next
  case (Cons c cs)
  show ?case
  proof (cases "m (c # cs)")
    case None
    have "(\<forall>pre suf. c # cs = pre @ suf \<longrightarrow> m suf = None) \<longleftrightarrow>
          (\<forall>pre suf. cs = pre @ suf \<longrightarrow> m suf = None)"
    proof
      assume a: "\<forall>pre suf. c # cs = pre @ suf \<longrightarrow> m suf = None"
      show "\<forall>pre suf. cs = pre @ suf \<longrightarrow> m suf = None"
      proof (intro allI impI)
        fix pre suf assume "cs = pre @ suf"
        then have "c # cs = (c # pre) @ suf" by simp
        with a show "m suf = None" by blast
      qed
    next
      assume a: "\<forall>pre suf. cs = pre @ suf \<longrightarrow> m suf = None"
      show "\<forall>pre suf. c # cs = pre @ suf \<longrightarrow> m suf = None"
      proof (intro allI impI)
        fix pre suf assume h: "c # cs = pre @ suf"
        show "m suf = None"
        proof (cases pre)
          case Nil
          with h None show ?thesis by simp
        next
          case (Cons p ps)
          with h have "cs = ps @ suf" by simp
          with a show ?thesis by blast
        qed
      qed
    qed
    with None Cons.IH show ?thesis by simp
  next
    case (Some r)
    then have "\<not> (\<forall>pre suf. c # cs = pre @ suf \<longrightarrow> m suf = None)"
      by (metis append_Nil option.distinct(1))
    with Some show ?thesis by (cases r) simp
  qed
qed


lemma lazy_dots_Some:
  "lazy_dots m s \<noteq> None \<Longrightarrow> \<exists>pre suf. s = pre @ suf \<and> m suf \<noteq> None"
proof (induction s)
  case Nil
  then show ?case by simp
next
  case (Cons c cs)
  show ?case
  proof (cases "m (c # cs)")
    case None
    with Cons.prems have "lazy_dots m cs \<noteq> None"
      by (simp split: if_splits)
    with Cons.IH obtain pre suf where "cs = pre @ suf" "m suf \<noteq> None"
      by blast
    then have "c # cs = (c # pre) @ suf \<and> m suf \<noteq> None"
      by simp
    then show ?thesis by blast
  next
    case (Some r)
    then have "c # cs = [] @ (c # cs) \<and> m (c # cs) \<noteq> None"
      by simp
    then show ?thesis by blast
  qed
qed

lemma re_search_None_D: "re_search m s = None \<Longrightarrow> s = pre @ suf \<Longrightarrow> m suf = None"
  by (simp only: re_search_None_iff)

lemma re_search_None_I: "(\<And>pre suf. s = pre @ suf \<Longrightarrow> m suf = None) \<Longrightarrow> re_search m s = None"
  by (simp only: re_search_None_iff) blast

lemma pat_all_I: "numchar c \<Longrightarrow> pat_all (''All:'' @ c # r) \<noteq> None"
  by (simp add: pat_all_def num_group_def)

lemma pat_all_D: "pat_all s \<noteq> None \<Longrightarrow> \<exists>c r. s = ''All:'' @ c # r \<and> numchar c"
  by (simp only: pat_all_Some_iff)

lemma no_all_sub:
  assumes "re_search pat_all (xs @ ys @ zs) = None"
  shows "re_search pat_all ys = None"
proof (rule re_search_None_I)
  fix pre suf
  assume ys: "ys = pre @ suf"
  show "pat_all suf = None"
  proof (rule ccontr)
    assume "pat_all suf \<noteq> None"
    then have "\<exists>c r. suf = ''All:'' @ c # r \<and> numchar c"
      by (rule pat_all_D)
    then obtain c r where suf: "suf = ''All:'' @ c # r" and c: "numchar c"
      by (elim exE conjE)
    have "xs @ ys @ zs = (xs @ pre) @ (''All:'' @ c # (r @ zs))"
      unfolding ys suf by simp
    with assms have "pat_all (''All:'' @ c # (r @ zs)) = None"
      by (rule re_search_None_D)
    moreover have "pat_all (''All:'' @ c # (r @ zs)) \<noteq> None"
      using c by (rule pat_all_I)
    ultimately show False
      by (rule notE [rotated])
  qed
qed

lemma no_all_no_ssim_all:
  assumes "re_search pat_all s = None"
  shows "re_search pat_ssim_all s = None"
proof (rule re_search_None_I)
  fix pre suf
  assume s: "s = pre @ suf"
  show "pat_ssim_all suf = None"
  proof (cases "lit ''SSIM'' suf")
    case None
    then show ?thesis by (simp add: pat_ssim_all_def)
  next
    case (Some r)
    then have suf: "suf = ''SSIM'' @ r"
      by (simp only: lit_Some_iff)
    have "lazy_dots pat_all r = None"
    proof (rule ccontr)
      assume "lazy_dots pat_all r \<noteq> None"
      then have "\<exists>p2 s2. r = p2 @ s2 \<and> pat_all s2 \<noteq> None"
        by (rule lazy_dots_Some)
      then obtain p2 s2 where r2: "r = p2 @ s2" and a: "pat_all s2 \<noteq> None"
        by (elim exE conjE)
      have "s = (pre @ ''SSIM'' @ p2) @ s2"
        unfolding s suf r2 by simp
      with assms have "pat_all s2 = None"
        by (rule re_search_None_D)
      with a show False
        by (rule notE)
    qed
    with Some show ?thesis by (simp add: pat_ssim_all_def)
  qed
qed

lemma split_nl_nonempty: "py_split_nl s \<noteq> []"
  by (induction s) (auto split: list.splits)

lemma split_nl_Cons:
  "py_split_nl (c # cs) =
     (if c = newline then [] # py_split_nl cs
      else (c # hd (py_split_nl cs)) # tl (py_split_nl cs))"
  using split_nl_nonempty [of cs] by (cases "py_split_nl cs") simp_all

lemma split_nl_hd: "\<exists>b. s = hd (py_split_nl s) @ b"
proof (induction s)
  case Nil
  then show ?case by simp
next
  case (Cons c cs)
  then obtain b where b: "cs = hd (py_split_nl cs) @ b"
    by (elim exE)
  show ?case
  proof (cases "c = newline")
    case True
    then have h: "hd (py_split_nl (c # cs)) = []"
      by (simp add: split_nl_Cons del: py_split_nl.simps)
    have "c # cs = hd (py_split_nl (c # cs)) @ (c # cs)"
      unfolding h by simp
    then show ?thesis by (intro exI)
  next
    case False
    then have h: "hd (py_split_nl (c # cs)) = c # hd (py_split_nl cs)"
      by (simp add: split_nl_Cons del: py_split_nl.simps)
    have e: "c # cs = (c # hd (py_split_nl cs)) @ b"
      using b by simp
    have "c # cs = hd (py_split_nl (c # cs)) @ b"
      unfolding h by (rule e)
    then show ?thesis by (intro exI)
  qed
qed

lemma split_nl_sub:
  "l \<in> set (py_split_nl s) \<Longrightarrow> \<exists>a b. s = a @ l @ b"
proof (induction s arbitrary: l)
  case Nil
  then have "l = []" by simp
  then have "[] = [] @ l @ []" by simp
  then show ?case by (intro exI)
next
  case (Cons c cs)
  have tl_sub: "\<exists>a b. c # cs = a @ l @ b" if "l \<in> set (py_split_nl cs)"
  proof -
    from Cons.IH [OF that] obtain a b where "cs = a @ l @ b"
      by (elim exE)
    then have "c # cs = (c # a) @ l @ b" by simp
    then show ?thesis by (intro exI)
  qed
  show ?case
  proof (cases "c = newline")
    case True
    with Cons.prems have "l = [] \<or> l \<in> set (py_split_nl cs)"
      by (simp add: split_nl_Cons del: py_split_nl.simps)
    then show ?thesis
    proof
      assume "l = []"
      then have "c # cs = [] @ l @ (c # cs)" by simp
      then show ?thesis by (intro exI)
    next
      assume "l \<in> set (py_split_nl cs)"
      then show ?thesis by (rule tl_sub)
    qed
  next
    case False
    with Cons.prems have "l = c # hd (py_split_nl cs) \<or> l \<in> set (tl (py_split_nl cs))"
      by (simp add: split_nl_Cons del: py_split_nl.simps)
    then show ?thesis
    proof
      assume l: "l = c # hd (py_split_nl cs)"
      obtain b where "cs = hd (py_split_nl cs) @ b"
        using split_nl_hd [of cs] by (elim exE)
      then have "c # cs = [] @ l @ b"
        using l by simp
      then show ?thesis by (intro exI)
    next
      assume "l \<in> set (tl (py_split_nl cs))"
      then have "l \<in> set (py_split_nl cs)"
        using split_nl_nonempty [of cs] by (cases "py_split_nl cs") simp_all
      then show ?thesis by (rule tl_sub)
    qed
  qed
qed

lemma py_strip_sub: "\<exists>a b. s = a @ py_strip s @ b"
proof -
  define t where "t = dropWhile py_isspace s"
  have 1: "s = takeWhile py_isspace s @ t"
    by (simp add: t_def)
  have "rev t = takeWhile py_isspace (rev t) @ dropWhile py_isspace (rev t)"
    by simp
  then have "rev (rev t) = rev (takeWhile py_isspace (rev t) @ dropWhile py_isspace (rev t))"
    by simp
  then have 2: "t = rev (dropWhile py_isspace (rev t)) @ rev (takeWhile py_isspace (rev t))"
    by (simp only: rev_rev_ident rev_append)
  have 3: "py_strip s = rev (dropWhile py_isspace (rev t))"
    by (simp add: py_strip_def t_def)
  have "s = takeWhile py_isspace s @ py_strip s @ rev (takeWhile py_isspace (rev t))"
    apply (subst 3)
    apply (subst 2 [symmetric])
    apply (rule 1)
    done
  then show ?thesis by (intro exI)
qed

lemma ssim_line_scan_no_all:
  "(\<And>l. l \<in> set lines \<Longrightarrow> re_search pat_all l = None) \<Longrightarrow> ssim_line_scan lines = Inr None"
  by (induction lines) simp_all

lemma no_all_line_scan:
  assumes "re_search pat_all s = None"
  shows "ssim_line_scan (rev (py_split_nl (py_strip s))) = Inr None"
proof (rule ssim_line_scan_no_all)
  fix l assume "l \<in> set (rev (py_split_nl (py_strip s)))"
  then have "l \<in> set (py_split_nl (py_strip s))"
    by simp
  then have "\<exists>a b. py_strip s = a @ l @ b"
    by (rule split_nl_sub)
  then obtain a b where ab: "py_strip s = a @ l @ b"
    by (elim exE)
  obtain a' b' where s: "s = a' @ py_strip s @ b'"
    using py_strip_sub [of s] by (elim exE)
  have "a' @ py_strip s @ b' = (a' @ a) @ l @ (b @ b')"
    unfolding ab by simp
  with s have "s = (a' @ a) @ l @ (b @ b')"
    by (rule trans)
  then have eq: "(a' @ a) @ l @ (b @ b') = s"
    by (rule sym)
  have "re_search pat_all ((a' @ a) @ l @ (b @ b')) = None"
    unfolding eq by (rule assms)
  then show "re_search pat_all l = None"
    by (rule no_all_sub)
qed

lemma digit_not_dot: "is_digit c \<Longrightarrow> c \<noteq> CHR ''.''"
  by (auto simp: is_digit_def)

lemma numchar_cases: "numchar c \<Longrightarrow> \<not> is_digit c \<Longrightarrow> c = CHR ''.''"
  by (simp add: numchar_def)

lemma numchar_not_minus: "numchar c \<Longrightarrow> c \<noteq> CHR ''-''"
  by (auto simp: numchar_def is_digit_def)

lemma py_float_numtok_unsigned:
  "list_all numchar tok \<Longrightarrow> py_float tok = py_float_unsigned tok"
  by (cases tok) (simp_all add: py_float_def py_float_unsigned_def numchar_not_minus)

lemma no_dots_digits:
  "list_all numchar fp \<Longrightarrow> filter (\<lambda>c. c = CHR ''.'') fp = [] \<longleftrightarrow> list_all is_digit fp"
  by (induction fp) (auto simp: numchar_def dest: digit_not_dot)

lemma digits_no_dots: "list_all is_digit ip \<Longrightarrow> filter (\<lambda>c. c = CHR ''.'') ip = []"
  by (induction ip) (auto dest: digit_not_dot)

lemma py_float_unsigned_Nil:
  "dropWhile is_digit tok = [] \<Longrightarrow>
   py_float_unsigned tok =
     (if takeWhile is_digit tok = [] then Inl ValueError
      else Inr (real (digits_val (takeWhile is_digit tok))))"
  by (simp only: py_float_unsigned_def Let_def list.case)

lemma py_float_unsigned_Cons:
  "dropWhile is_digit tok = c # fp \<Longrightarrow>
   py_float_unsigned tok =
     (if c = CHR ''.'' \<and> list_all is_digit fp \<and> (takeWhile is_digit tok \<noteq> [] \<or> fp \<noteq> [])
      then Inr (real (digits_val (takeWhile is_digit tok)) + real (digits_val fp) / 10 ^ length fp)
      else Inl ValueError)"
  by (simp only: py_float_unsigned_def Let_def list.case)

lemma py_float_numtok:
  assumes num: "list_all numchar tok"
  shows "(\<exists>x. py_float tok = Inr x) \<longleftrightarrow>
         (\<exists>c\<in>set tok. is_digit c) \<and> length (filter (\<lambda>c. c = CHR ''.'') tok) \<le> 1"
proof -
  define ip where "ip = takeWhile is_digit tok"
  define rest where "rest = dropWhile is_digit tok"
  have tok: "tok = ip @ rest"
    by (simp add: ip_def rest_def)
  have ipd: "list_all is_digit ip"
    unfolding ip_def list_all_iff by (auto dest: set_takeWhileD)
  have ip_dots: "filter (\<lambda>c. c = CHR ''.'') ip = []"
    using ipd by (rule digits_no_dots)
  have ip_dig: "(\<exists>c\<in>set ip. is_digit c) \<longleftrightarrow> ip \<noteq> []"
    using ipd by (cases ip) (auto simp: list_all_iff)
  show ?thesis
  proof (cases rest)
    case Nil
    then have "py_float_unsigned tok = (if ip = [] then Inl ValueError else Inr (real (digits_val ip)))"
      unfolding ip_def rest_def by (rule py_float_unsigned_Nil)
    then have "(\<exists>x. py_float tok = Inr x) \<longleftrightarrow> ip \<noteq> []"
      by (simp add: py_float_numtok_unsigned [OF num])
    moreover have "tok = ip"
      using tok Nil by simp
    ultimately show ?thesis
      using ip_dig ip_dots by simp
  next
    case (Cons c fp)
    have "\<not> is_digit c"
      using Cons hd_dropWhile [of is_digit tok] by (simp add: rest_def)
    moreover have "numchar c" and fpn: "list_all numchar fp"
      using num tok Cons by simp_all
    ultimately have c: "c = CHR ''.''"
      by (simp add: numchar_cases)
    have "py_float_unsigned tok =
        (if list_all is_digit fp \<and> (ip \<noteq> [] \<or> fp \<noteq> [])
         then Inr (real (digits_val ip) + real (digits_val fp) / 10 ^ length fp)
         else Inl ValueError)"
      using py_float_unsigned_Cons [of tok c fp] Cons c by (simp add: ip_def rest_def)
    then have l: "(\<exists>x. py_float tok = Inr x) \<longleftrightarrow> list_all is_digit fp \<and> (ip \<noteq> [] \<or> fp \<noteq> [])"
      by (simp add: py_float_numtok_unsigned [OF num])
    have t: "tok = ip @ c # fp"
      using tok Cons by simp
    have dots: "length (filter (\<lambda>c. c = CHR ''.'') tok) \<le> 1 \<longleftrightarrow> list_all is_digit fp"
      using no_dots_digits [OF fpn] by (simp add: t c ip_dots)
    have dig: "(\<exists>d\<in>set tok. is_digit d) \<longleftrightarrow> ip \<noteq> [] \<or> (\<exists>d\<in>set fp. is_digit d)"
      using ip_dig \<open>\<not> is_digit c\<close> by (auto simp: t)
    have fpd: "list_all is_digit fp \<Longrightarrow> (\<exists>d\<in>set fp. is_digit d) \<longleftrightarrow> fp \<noteq> []"
      by (cases fp) (auto simp: list_all_iff)
    show ?thesis
      unfolding l dots dig using fpd by blast
  qed
qed

lemma num_group_Some: "num_group s = Some (g, r) \<Longrightarrow> g \<noteq> [] \<and> list_all numchar g"
  unfolding num_group_def Let_def list_all_iff
  by (auto split: if_splits dest: set_takeWhileD)

lemma re_search_Some: "re_search m s = Some g \<Longrightarrow> \<exists>suf r. m suf = Some (g, r)"
proof (induction s)
  case Nil
  then show ?case by auto
next
  case (Cons c cs)
  then show ?case
    by (cases "m (c # cs)") auto
qed

lemma lazy_dots_result: "lazy_dots m s = Some x \<Longrightarrow> \<exists>suf. m suf = Some x"
proof (induction s)
  case Nil
  then show ?case by auto
next
  case (Cons c cs)
  then show ?case
    by (cases "m (c # cs)") (auto split: if_splits)
qed

lemma re_findall_mem:
  "g \<in> set (re_findall m s) \<Longrightarrow> \<exists>suf r. m suf = Some (g, r)"
proof (induction m s rule: re_findall.induct)
  case (1 m)
  then show ?case
    by (cases "m []") auto
next
  case (2 m c cs)
  show ?case
  proof (cases "m (c # cs)")
    case None
    with 2 show ?thesis by simp
  next
    case (Some a)
    obtain g' rest where a: "a = (g', rest)"
      by (cases a)
    from 2 Some a show ?thesis
      by auto
  qed
qed

lemma pat_vmaf_score_num:
  "pat_vmaf_score s = Some (g, r) \<Longrightarrow> g \<noteq> [] \<and> list_all numchar g"
  unfolding pat_vmaf_score_def by (cases "lit ''VMAF score:'' s") (simp_all add: num_group_Some)

lemma pat_vmaf_any_num:
  "pat_vmaf_any s = Some (g, r) \<Longrightarrow> g \<noteq> [] \<and> list_all numchar g"
proof -
  assume a: "pat_vmaf_any s = Some (g, r)"
  then obtain t where "lazy_dots num_group t = Some (g, r)"
    unfolding pat_vmaf_any_def by (cases "lit ''VMAF'' s") simp_all
  then obtain suf where "num_group suf = Some (g, r)"
    using lazy_dots_result by blast
  then show ?thesis by (rule num_group_Some)
qed

lemma pat_all_num: "pat_all s = Some (g, r) \<Longrightarrow> g \<noteq> [] \<and> list_all numchar g"
  unfolding pat_all_def by (cases "lit ''All:'' s") (simp_all add: num_group_Some)

lemma pat_y_num: "pat_y s = Some (g, r) \<Longrightarrow> g \<noteq> [] \<and> list_all numchar g"
  unfolding pat_y_def by (cases "lit ''Y:'' s") (simp_all add: num_group_Some)

text \<open>
  C7 (as amended). The tiers of the VMAF parser are tried in order and the first tier whose
  pattern matches decides the result. When a labeled \<^verbatim>\<open>VMAF score:\<close> token is
  present, the result is its value if the token is a number and \<open>None\<close> if it is not,
  and the fallback is not consulted; only when no labeled token is present, the last token
  that follows a \<^verbatim>\<open>VMAF\<close> label decides in the same way; with neither, the result
  is \<open>None\<close>. A token of digits and dots is a number exactly when it has a digit and
  at most one dot. Text with both \<^verbatim>\<open>VMAF score: 91.23\<close> and another token after
  \<^verbatim>\<open>VMAF\<close> gives 91.23, in either order.
\<close>

theorem vmaf_first_match_decides:
  "(re_search pat_vmaf_score output = Some tok \<longrightarrow>
      tok \<noteq> [] \<and> list_all numchar tok \<and>
      parse_single_vmaf_output output =
        (case py_float tok of Inl e \<Rightarrow> Inr None | Inr x \<Rightarrow> Inr (Some x))) \<and>
   (re_search pat_vmaf_score output = None \<and> re_findall pat_vmaf_any output \<noteq> [] \<longrightarrow>
      list_all numchar (last (re_findall pat_vmaf_any output)) \<and>
      parse_single_vmaf_output output =
        (case py_float (last (re_findall pat_vmaf_any output)) of
           Inl e \<Rightarrow> Inr None | Inr x \<Rightarrow> Inr (Some x))) \<and>
   (re_search pat_vmaf_score output = None \<and> re_findall pat_vmaf_any output = [] \<longrightarrow>
      parse_single_vmaf_output output = Inr None) \<and>
   (list_all numchar tok \<longrightarrow>
      ((\<exists>x. py_float tok = Inr x) \<longleftrightarrow>
       (\<exists>c\<in>set tok. is_digit c) \<and> length (filter (\<lambda>c. c = CHR ''.'') tok) \<le> 1)) \<and>
   parse_single_vmaf_output ''VMAF score: 91.23 and VMAF x 5'' = Inr (Some 91.23) \<and>
   parse_single_vmaf_output ''VMAF x 5 and VMAF score: 91.23'' = Inr (Some 91.23)"
proof -
  have 1: "tok \<noteq> [] \<and> list_all numchar tok \<and>
      parse_single_vmaf_output output =
        (case py_float tok of Inl e \<Rightarrow> Inr None | Inr x \<Rightarrow> Inr (Some x))"
    if h: "re_search pat_vmaf_score output = Some tok"
  proof -
    from re_search_Some [OF h] obtain suf r where "pat_vmaf_score suf = Some (tok, r)"
      by (elim exE)
    then have "tok \<noteq> [] \<and> list_all numchar tok"
      by (rule pat_vmaf_score_num)
    moreover have "parse_single_vmaf_output output =
        (case py_float tok of Inl e \<Rightarrow> Inr None | Inr x \<Rightarrow> Inr (Some x))"
      by (simp add: parse_single_vmaf_output_def parse_single_vmaf_output_body_def h
          split: sum.splits)
    ultimately show ?thesis by (intro conjI) simp_all
  qed
  have 2: "list_all numchar (last (re_findall pat_vmaf_any output)) \<and>
      parse_single_vmaf_output output =
        (case py_float (last (re_findall pat_vmaf_any output)) of
           Inl e \<Rightarrow> Inr None | Inr x \<Rightarrow> Inr (Some x))"
    if h: "re_search pat_vmaf_score output = None" and ne: "re_findall pat_vmaf_any output \<noteq> []"
  proof -
    have "last (re_findall pat_vmaf_any output) \<in> set (re_findall pat_vmaf_any output)"
      using ne by (rule last_in_set)
    from re_findall_mem [OF this] obtain suf r
      where "pat_vmaf_any suf = Some (last (re_findall pat_vmaf_any output), r)"
      by (elim exE)
    then have "list_all numchar (last (re_findall pat_vmaf_any output))"
      using pat_vmaf_any_num by blast
    moreover have "parse_single_vmaf_output output =
        (case py_float (last (re_findall pat_vmaf_any output)) of
           Inl e \<Rightarrow> Inr None | Inr x \<Rightarrow> Inr (Some x))"
      using ne
      by (simp add: parse_single_vmaf_output_def parse_single_vmaf_output_body_def h Let_def
          split: sum.splits)
    ultimately show ?thesis by (intro conjI)
  qed
  have 3: "parse_single_vmaf_output output = Inr None"
    if "re_search pat_vmaf_score output = None" and "re_findall pat_vmaf_any output = []"
    using that
    by (simp add: parse_single_vmaf_output_def parse_single_vmaf_output_body_def)
  have 4: "(\<exists>x. py_float tok = Inr x) \<longleftrightarrow>
       (\<exists>c\<in>set tok. is_digit c) \<and> length (filter (\<lambda>c. c = CHR ''.'') tok) \<le> 1"
    if "list_all numchar tok"
    using that by (rule py_float_numtok)
  have e1: "parse_single_vmaf_output ''VMAF score: 91.23 and VMAF x 5'' = Inr (Some 91.23)"
    by code_simp
  have e2: "parse_single_vmaf_output ''VMAF x 5 and VMAF score: 91.23'' = Inr (Some 91.23)"
    by code_simp
  from 1 have i1: "re_search pat_vmaf_score output = Some tok \<longrightarrow>
      tok \<noteq> [] \<and> list_all numchar tok \<and>
      parse_single_vmaf_output output =
        (case py_float tok of Inl e \<Rightarrow> Inr None | Inr x \<Rightarrow> Inr (Some x))"
    by (rule impI)
  from 2 have i2: "re_search pat_vmaf_score output = None \<and> re_findall pat_vmaf_any output \<noteq> [] \<longrightarrow>
      list_all numchar (last (re_findall pat_vmaf_any output)) \<and>
      parse_single_vmaf_output output =
        (case py_float (last (re_findall pat_vmaf_any output)) of
           Inl e \<Rightarrow> Inr None | Inr x \<Rightarrow> Inr (Some x))"
    by (intro impI) (elim conjE)
  from 3 have i3: "re_search pat_vmaf_score output = None \<and> re_findall pat_vmaf_any output = [] \<longrightarrow>
      parse_single_vmaf_output output = Inr None"
    by (intro impI) (elim conjE)
  from 4 have i4: "list_all numchar tok \<longrightarrow>
      ((\<exists>x. py_float tok = Inr x) \<longleftrightarrow>
       (\<exists>c\<in>set tok. is_digit c) \<and> length (filter (\<lambda>c. c = CHR ''.'') tok) \<le> 1)"
    by (rule impI)
  from i1 i2 i3 i4 e1 e2 show ?thesis
    by (intro conjI)
qed

text \<open>
  C7 as stated fails: here a labeled token is present (a score followed by a full stop),
  the fallback tier would give 5, and the parser returns \<open>None\<close>.
\<close>

theorem vmaf_label_not_returned:
  "re_search pat_vmaf_score ''VMAF score: 91.23. VMAF mean 5'' = Some ''91.23.'' \<and>
   re_findall pat_vmaf_any ''VMAF score: 91.23. VMAF mean 5'' = [''91.23.'', ''5''] \<and>
   py_float ''5'' = Inr 5 \<and>
   parse_single_vmaf_output ''VMAF score: 91.23. VMAF mean 5'' = Inr None"
  by code_simp


text \<open>One text for each tier, and a token that is not a number.\<close>

theorem vmaf_first_match_decides_witness:
  "re_search pat_vmaf_score ''VMAF score: 91.23 and VMAF x 5'' = Some ''91.23'' \<and>
   parse_single_vmaf_output ''VMAF score: 91.23 and VMAF x 5'' = Inr (Some 91.23) \<and>
   re_search pat_vmaf_score ''VMAF: 5 VMAF mean 77.1'' = None \<and>
   re_findall pat_vmaf_any ''VMAF: 5 VMAF mean 77.1'' = [''5'', ''77.1''] \<and>
   parse_single_vmaf_output ''VMAF: 5 VMAF mean 77.1'' = Inr (Some 77.1) \<and>
   parse_single_vmaf_output ''no score here'' = Inr None \<and>
   list_all numchar ''1.2.3'' \<and> (\<forall>x. py_float ''1.2.3'' \<noteq> Inr x)"
proof -
  have a: "re_search pat_vmaf_score ''VMAF score: 91.23 and VMAF x 5'' = Some ''91.23''"
    by code_simp
  have a': "py_float ''91.23'' = Inr 91.23"
    by code_simp
  have b: "re_search pat_vmaf_score ''VMAF: 5 VMAF mean 77.1'' = None"
    by code_simp
  have b2: "re_findall pat_vmaf_any ''VMAF: 5 VMAF mean 77.1'' = [''5'', ''77.1'']"
    by code_simp
  have b': "py_float ''77.1'' = Inr 77.1"
    by code_simp
  have c: "re_search pat_vmaf_score ''no score here'' = None"
    by code_simp
  have c2: "re_findall pat_vmaf_any ''no score here'' = []"
    by code_simp
  have d: "list_all numchar ''1.2.3''"
    by code_simp
  have d2: "\<not> length (filter (\<lambda>c. c = CHR ''.'') ''1.2.3'') \<le> 1"
    by code_simp
  note t1 = vmaf_first_match_decides [of "''VMAF score: 91.23 and VMAF x 5''" "''91.23''"]
  have "parse_single_vmaf_output ''VMAF score: 91.23 and VMAF x 5'' =
      (case py_float ''91.23'' of Inl e \<Rightarrow> Inr None | Inr x \<Rightarrow> Inr (Some x))"
    using t1 [THEN conjunct1, THEN mp, OF a] by (elim conjE)
  then have r1: "parse_single_vmaf_output ''VMAF score: 91.23 and VMAF x 5'' = Inr (Some 91.23)"
    by (simp only: a' sum.case)
  note t2 = vmaf_first_match_decides [of "''VMAF: 5 VMAF mean 77.1''" "[]"]
  have ne: "re_findall pat_vmaf_any ''VMAF: 5 VMAF mean 77.1'' \<noteq> []"
    by (simp only: b2) simp
  have l: "last [''5'', ''77.1''] = ''77.1''"
    by simp
  have "parse_single_vmaf_output ''VMAF: 5 VMAF mean 77.1'' =
        (case py_float (last (re_findall pat_vmaf_any ''VMAF: 5 VMAF mean 77.1'')) of
           Inl e \<Rightarrow> Inr None | Inr x \<Rightarrow> Inr (Some x))"
    using t2 [THEN conjunct2, THEN conjunct1, THEN mp, OF conjI [OF b ne]] by (elim conjE)
  then have r2: "parse_single_vmaf_output ''VMAF: 5 VMAF mean 77.1'' = Inr (Some 77.1)"
    by (simp only: b2 l b' sum.case)
  note t3 = vmaf_first_match_decides [of "''no score here''" "[]"]
  have r3: "parse_single_vmaf_output ''no score here'' = Inr None"
    using t3 [THEN conjunct2, THEN conjunct2, THEN conjunct1, THEN mp, OF conjI [OF c c2]] .
  note t4 = vmaf_first_match_decides [of "[]" "''1.2.3''"]
  have "(\<exists>x. py_float ''1.2.3'' = Inr x) \<longleftrightarrow>
       (\<exists>c\<in>set ''1.2.3''. is_digit c) \<and> length (filter (\<lambda>c. c = CHR ''.'') ''1.2.3'') \<le> 1"
    using t4 [THEN conjunct2, THEN conjunct2, THEN conjunct2, THEN conjunct1, THEN mp, OF d] .
  then have "(\<exists>x. py_float ''1.2.3'' = Inr x) \<Longrightarrow>
      length (filter (\<lambda>c. c = CHR ''.'') ''1.2.3'') \<le> 1"
    by (elim iffD1 [THEN conjunct2])
  with d2 have "\<not> (\<exists>x. py_float ''1.2.3'' = Inr x)"
    by (elim contrapos_nn)
  then have r4: "\<forall>x. py_float ''1.2.3'' \<noteq> Inr x"
    by (rule not_ex [THEN iffD1])
  from a r1 b b2 r2 r3 d r4 show ?thesis
    by (intro conjI)
qed

text \<open>
  C8 (as amended). The SSIM parser first searches the aggregate \<^verbatim>\<open>All:\<close> token; when
  it is present, the result is its value if the token is a number and \<open>None\<close> if it is
  not, and no later tier is consulted. When it is absent, the search for
  \<^verbatim>\<open>SSIM ... All:\<close> and the scan of the lines in reverse are made and find nothing
  (each needs an \<^verbatim>\<open>All:\<close> token), and the luma token \<^verbatim>\<open>Y:\<close> decides in the same
  way; with no token at all the result is \<open>None\<close>.
\<close>

theorem ssim_first_match_decides:
  "(re_search pat_all output = Some tok \<longrightarrow>
      tok \<noteq> [] \<and> list_all numchar tok \<and>
      parse_single_ssim_output output =
        (case py_float tok of Inl e \<Rightarrow> Inr None | Inr x \<Rightarrow> Inr (Some x))) \<and>
   (re_search pat_all output = None \<longrightarrow>
      re_search pat_ssim_all output = None \<and>
      ssim_line_scan (rev (py_split_nl (py_strip output))) = Inr None) \<and>
   (re_search pat_all output = None \<and> re_search pat_y output = Some tok \<longrightarrow>
      tok \<noteq> [] \<and> list_all numchar tok \<and>
      parse_single_ssim_output output =
        (case py_float tok of Inl e \<Rightarrow> Inr None | Inr x \<Rightarrow> Inr (Some x))) \<and>
   (re_search pat_all output = None \<and> re_search pat_y output = None \<longrightarrow>
      parse_single_ssim_output output = Inr None) \<and>
   (list_all numchar tok \<longrightarrow>
      ((\<exists>x. py_float tok = Inr x) \<longleftrightarrow>
       (\<exists>c\<in>set tok. is_digit c) \<and> length (filter (\<lambda>c. c = CHR ''.'') tok) \<le> 1))"
proof -
  have i1: "re_search pat_all output = Some tok \<longrightarrow>
      tok \<noteq> [] \<and> list_all numchar tok \<and>
      parse_single_ssim_output output =
        (case py_float tok of Inl e \<Rightarrow> Inr None | Inr x \<Rightarrow> Inr (Some x))"
  proof
    assume h: "re_search pat_all output = Some tok"
    from re_search_Some [OF h] obtain suf r where "pat_all suf = Some (tok, r)"
      by (elim exE)
    then have "tok \<noteq> [] \<and> list_all numchar tok"
      by (rule pat_all_num)
    moreover have "parse_single_ssim_output output =
        (case py_float tok of Inl e \<Rightarrow> Inr None | Inr x \<Rightarrow> Inr (Some x))"
      by (simp add: parse_single_ssim_output_def parse_single_ssim_output_body_def h
          split: sum.splits)
    ultimately show "tok \<noteq> [] \<and> list_all numchar tok \<and>
      parse_single_ssim_output output =
        (case py_float tok of Inl e \<Rightarrow> Inr None | Inr x \<Rightarrow> Inr (Some x))"
      by simp
  qed
  have dead: "re_search pat_ssim_all output = None \<and>
      ssim_line_scan (rev (py_split_nl (py_strip output))) = Inr None"
    if h: "re_search pat_all output = None"
    using no_all_no_ssim_all [OF h] no_all_line_scan [OF h] by (intro conjI)
  then have i2: "re_search pat_all output = None \<longrightarrow>
      re_search pat_ssim_all output = None \<and>
      ssim_line_scan (rev (py_split_nl (py_strip output))) = Inr None"
    by (rule impI)
  have body: "parse_single_ssim_output output =
      (case re_search pat_y output of
         Some tok \<Rightarrow> (case py_float tok of Inl e \<Rightarrow> Inr None | Inr x \<Rightarrow> Inr (Some x))
       | None \<Rightarrow> Inr None)"
    if h: "re_search pat_all output = None"
    using dead [OF h]
    by (simp add: parse_single_ssim_output_def parse_single_ssim_output_body_def h
        split: sum.splits option.splits)
  have i3: "re_search pat_all output = None \<and> re_search pat_y output = Some tok \<longrightarrow>
      tok \<noteq> [] \<and> list_all numchar tok \<and>
      parse_single_ssim_output output =
        (case py_float tok of Inl e \<Rightarrow> Inr None | Inr x \<Rightarrow> Inr (Some x))"
  proof
    assume a: "re_search pat_all output = None \<and> re_search pat_y output = Some tok"
    then have h: "re_search pat_all output = None" and y: "re_search pat_y output = Some tok"
      by simp_all
    from re_search_Some [OF y] obtain suf r where "pat_y suf = Some (tok, r)"
      by (elim exE)
    then have "tok \<noteq> [] \<and> list_all numchar tok"
      by (rule pat_y_num)
    moreover have "parse_single_ssim_output output =
        (case py_float tok of Inl e \<Rightarrow> Inr None | Inr x \<Rightarrow> Inr (Some x))"
      using body [OF h] by (simp add: y)
    ultimately show "tok \<noteq> [] \<and> list_all numchar tok \<and>
      parse_single_ssim_output output =
        (case py_float tok of Inl e \<Rightarrow> Inr None | Inr x \<Rightarrow> Inr (Some x))"
      by simp
  qed
  have i4: "re_search pat_all output = None \<and> re_search pat_y output = None \<longrightarrow>
      parse_single_ssim_output output = Inr None"
  proof
    assume a: "re_search pat_all output = None \<and> re_search pat_y output = None"
    then have h: "re_search pat_all output = None" and y: "re_search pat_y output = None"
      by simp_all
    show "parse_single_ssim_output output = Inr None"
      using body [OF h] by (simp add: y)
  qed
  have i5: "list_all numchar tok \<longrightarrow>
      ((\<exists>x. py_float tok = Inr x) \<longleftrightarrow>
       (\<exists>c\<in>set tok. is_digit c) \<and> length (filter (\<lambda>c. c = CHR ''.'') tok) \<le> 1)"
    using py_float_numtok [of tok] by (rule impI)
  from i1 i2 i3 i4 i5 show ?thesis
    by (intro conjI)
qed

text \<open>
  C8 as stated fails: here the aggregate token is matched but is not a number, the luma
  tier would give 0.97, and the parser returns \<open>None\<close>.
\<close>

theorem ssim_aggregate_not_returned:
  "re_search pat_all ''SSIM Y:0.97 U:0.98 V:0.98 All:0.97.'' = Some ''0.97.'' \<and>
   re_search pat_y ''SSIM Y:0.97 U:0.98 V:0.98 All:0.97.'' = Some ''0.97'' \<and>
   py_float ''0.97'' = Inr 0.97 \<and>
   parse_single_ssim_output ''SSIM Y:0.97 U:0.98 V:0.98 All:0.97.'' = Inr None"
  by code_simp

text \<open>One text for each tier that can succeed, and a token that is not a number.\<close>

theorem ssim_first_match_decides_witness:
  "re_search pat_all ''n:1 Y:0.12 U:0.23 V:0.34 All:0.45 (12.34)''
     = Some ''0.45'' \<and>
   parse_single_ssim_output ''n:1 Y:0.12 U:0.23 V:0.34 All:0.45 (12.34)''
     = Inr (Some 0.45) \<and>
   re_search pat_all ''SSIM Y:0.75 U:0.5'' = None \<and>
   re_search pat_y ''SSIM Y:0.75 U:0.5'' = Some ''0.75'' \<and>
   parse_single_ssim_output ''SSIM Y:0.75 U:0.5'' = Inr (Some 0.75) \<and>
   parse_single_ssim_output ''no score here'' = Inr None \<and>
   list_all numchar ''0.97.'' \<and> (\<forall>x. py_float ''0.97.'' \<noteq> Inr x)"
proof -
  have a: "re_search pat_all ''n:1 Y:0.12 U:0.23 V:0.34 All:0.45 (12.34)''
     = Some ''0.45''"
    by code_simp
  have a': "py_float ''0.45'' = Inr 0.45"
    by code_simp
  have b: "re_search pat_all ''SSIM Y:0.75 U:0.5'' = None"
    by code_simp
  have b2: "re_search pat_y ''SSIM Y:0.75 U:0.5'' = Some ''0.75''"
    by code_simp
  have b': "py_float ''0.75'' = Inr 0.75"
    by code_simp
  have c: "re_search pat_all ''no score here'' = None"
    by code_simp
  have c2: "re_search pat_y ''no score here'' = None"
    by code_simp
  have d: "list_all numchar ''0.97.''"
    by code_simp
  have d2: "\<not> length (filter (\<lambda>c. c = CHR ''.'') ''0.97.'') \<le> 1"
    by code_simp
  note t1 = ssim_first_match_decides
    [of "''n:1 Y:0.12 U:0.23 V:0.34 All:0.45 (12.34)''" "''0.45''"]
  have "parse_single_ssim_output ''n:1 Y:0.12 U:0.23 V:0.34 All:0.45 (12.34)'' =
      (case py_float ''0.45'' of Inl e \<Rightarrow> Inr None | Inr x \<Rightarrow> Inr (Some x))"
    using t1 [THEN conjunct1, THEN mp, OF a] by (elim conjE)
  then have r1: "parse_single_ssim_output ''n:1 Y:0.12 U:0.23 V:0.34 All:0.45 (12.34)''
     = Inr (Some 0.45)"
    by (simp only: a' sum.case)
  note t2 = ssim_first_match_decides [of "''SSIM Y:0.75 U:0.5''" "''0.75''"]
  have "parse_single_ssim_output ''SSIM Y:0.75 U:0.5'' =
      (case py_float ''0.75'' of Inl e \<Rightarrow> Inr None | Inr x \<Rightarrow> Inr (Some x))"
    using t2 [THEN conjunct2, THEN conjunct2, THEN conjunct1, THEN mp, OF conjI [OF b b2]]
    by (elim conjE)
  then have r2: "parse_single_ssim_output ''SSIM Y:0.75 U:0.5'' = Inr (Some 0.75)"
    by (simp only: b' sum.case)
  note t3 = ssim_first_match_decides [of "''no score here''" "[]"]
  have r3: "parse_single_ssim_output ''no score here'' = Inr None"
    using t3 [THEN conjunct2, THEN conjunct2, THEN conjunct2, THEN conjunct1, THEN mp,
        OF conjI [OF c c2]] .
  note t4 = ssim_first_match_decides [of "[]" "''0.97.''"]
  have "(\<exists>x. py_float ''0.97.'' = Inr x) \<longleftrightarrow>
       (\<exists>c\<in>set ''0.97.''. is_digit c) \<and> length (filter (\<lambda>c. c = CHR ''.'') ''0.97.'') \<le> 1"
    using t4 [THEN conjunct2, THEN conjunct2, THEN conjunct2, THEN conjunct2, THEN mp, OF d] .
  then have "(\<exists>x. py_float ''0.97.'' = Inr x) \<Longrightarrow>
      length (filter (\<lambda>c. c = CHR ''.'') ''0.97.'') \<le> 1"
    by (elim iffD1 [THEN conjunct2])
  with d2 have "\<not> (\<exists>x. py_float ''0.97.'' = Inr x)"
    by (elim contrapos_nn)
  then have r4: "\<forall>x. py_float ''0.97.'' \<noteq> Inr x"
    by (rule not_ex [THEN iffD1])
  from a r1 b b2 r2 r3 d r4 show ?thesis
    by (intro conjI)
qed

text \<open>
  C10. Each parser returns a score or \<open>None\<close> for every text and never passes an
  exception on to its caller, also when a pattern captures a token that is not a number:
  on a token of dots alone the body of the parser raises \<open>ValueError\<close> and the parser
  returns \<open>None\<close>.
\<close>

theorem parsers_total:
  "(\<exists>r. parse_single_vmaf_output output = Inr r) \<and>
   (\<exists>r. parse_single_ssim_output output = Inr r) \<and>
   (\<exists>r. parse_single_audio_output output = Inr r) \<and>
   (\<exists>r. parse_single_video_output output metric = Inr r) \<and>
   re_search pat_vmaf_score ''VMAF score: ...'' = Some ''...'' \<and>
   parse_single_vmaf_output_body ''VMAF score: ...'' = Inl ValueError \<and>
   parse_single_vmaf_output ''VMAF score: ...'' = Inr None \<and>
   re_search pat_all ''All:.'' = Some ''.'' \<and>
   parse_single_ssim_output_body ''All:.'' = Inl ValueError \<and>
   parse_single_ssim_output ''All:.'' = Inr None \<and>
   re_findall pat_db ''level .. dB'' = [''..''] \<and>
   parse_single_audio_output_body ''level .. dB'' = Inl ValueError \<and>
   parse_single_audio_output ''level .. dB'' = Inr None"
proof -
  have 1: "\<exists>r. parse_single_vmaf_output output = Inr r"
    by (cases "parse_single_vmaf_output_body output") (simp_all add: parse_single_vmaf_output_def)
  have 2: "\<exists>r. parse_single_ssim_output output = Inr r"
    by (cases "parse_single_ssim_output_body output") (simp_all add: parse_single_ssim_output_def)
  have 3: "\<exists>r. parse_single_audio_output output = Inr r"
    by (cases "parse_single_audio_output_body output") (simp_all add: parse_single_audio_output_def)
  have 4: "\<exists>r. parse_single_video_output output metric = Inr r"
    by (cases "if metric = ''VMAF'' then parse_single_vmaf_output output
               else parse_single_ssim_output output")
      (simp_all add: parse_single_video_output_def)
  have 5: "re_search pat_vmaf_score ''VMAF score: ...'' = Some ''...''"
    by code_simp
  have 6: "parse_single_vmaf_output_body ''VMAF score: ...'' = Inl ValueError"
    by code_simp
  have 7: "parse_single_vmaf_output ''VMAF score: ...'' = Inr None"
    by code_simp
  have 8: "re_search pat_all ''All:.'' = Some ''.''"
    by code_simp
  have 9: "parse_single_ssim_output_body ''All:.'' = Inl ValueError"
    by code_simp
  have 10: "parse_single_ssim_output ''All:.'' = Inr None"
    by code_simp
  have 11: "re_findall pat_db ''level .. dB'' = [''..'']"
    by code_simp
  have 12: "parse_single_audio_output_body ''level .. dB'' = Inl ValueError"
    by code_simp
  have 13: "parse_single_audio_output ''level .. dB'' = Inr None"
    by code_simp
  from 1 2 3 4 5 6 7 8 9 10 11 12 13 show ?thesis
    by (intro conjI)
qed

theorem parsers_total_witness:
  "(\<exists>r. parse_single_vmaf_output ''VMAF score: 91.23.'' = Inr r) \<and>
   (\<exists>r. parse_single_ssim_output ''All:..'' = Inr r) \<and>
   (\<exists>r. parse_single_audio_output ''PSNR ch0: . dB'' = Inr r) \<and>
   parse_single_vmaf_output ''VMAF score: 91.23.'' = Inr None \<and>
   parse_single_ssim_output ''All:..'' = Inr None \<and>
   parse_single_audio_output ''PSNR ch0: . dB'' = Inr None"
proof -
  have a: "\<exists>r. parse_single_vmaf_output ''VMAF score: 91.23.'' = Inr r"
    using parsers_total [of "''VMAF score: 91.23.''" "''VMAF''"] by (elim conjE)
  have b: "\<exists>r. parse_single_ssim_output ''All:..'' = Inr r"
    using parsers_total [of "''All:..''" "''SSIM''"] by (elim conjE)
  have c: "\<exists>r. parse_single_audio_output ''PSNR ch0: . dB'' = Inr r"
    using parsers_total [of "''PSNR ch0: . dB''" "''VMAF''"] by (elim conjE)
  have d: "parse_single_vmaf_output ''VMAF score: 91.23.'' = Inr None"
    by code_simp
  have e: "parse_single_ssim_output ''All:..'' = Inr None"
    by code_simp
  have f: "parse_single_audio_output ''PSNR ch0: . dB'' = Inr None"
    by code_simp
  from a b c d e f show ?thesis
    by (intro conjI)
qed

section \<open>The progress estimate: properties\<close>

lemma total_frames_pos: "1 \<le> total_frames_of frames"
  by (simp add: total_frames_of_def)

lemma floor_estimate:
  fixes c t :: nat
  assumes "0 < t"
  shows "\<lfloor>min 1 (real c / real t) * 45\<rfloor> = min 45 (int ((45 * c) div t))"
proof (cases "t \<le> c")
  case True
  then have "1 \<le> real c / real t"
    using assms by (simp add: le_divide_eq)
  then have l: "\<lfloor>min 1 (real c / real t) * 45\<rfloor> = 45"
    by (simp add: min_def)
  have "45 * t \<le> 45 * c"
    using True by simp
  then have "(45 * t) div t \<le> (45 * c) div t"
    by (rule div_le_mono)
  then have "45 \<le> (45 * c) div t"
    using assms by simp
  then show ?thesis
    unfolding l by (simp add: min_def)
next
  case False
  then have lt: "c < t" by simp
  then have "real c / real t < 1"
    using assms by simp
  then have "min 1 (real c / real t) * 45 = real (45 * c) / real t"
    by (simp add: min_def)
  then have l: "\<lfloor>min 1 (real c / real t) * 45\<rfloor> = int ((45 * c) div t)"
    by (simp only: floor_divide_of_nat_eq)
  have "45 * c < 45 * t"
    using lt by simp
  then have "(45 * c) div t < 45"
    using assms by (simp add: div_less_iff_less_mult mult.commute)
  then show ?thesis
    unfolding l by (simp add: min_def)
qed




section \<open>The scheduler: properties\<close>

lemma submit_tasks_prefix:
  "fst (submit_tasks e tasks s) = take (length (fst (submit_tasks e tasks s))) tasks"
proof (induction tasks arbitrary: s)
  case Nil
  then show ?case by simp
next
  case (Cons task tasks)
  show ?case
  proof (cases "stop_readings e (clock s)")
    case True
    then show ?thesis by (simp add: is_set_def)
  next
    case False
    obtain sub s2 where r: "submit_tasks e tasks (s\<lparr>clock := Suc (clock s)\<rparr>) = (sub, s2)"
      by (cases "submit_tasks e tasks (s\<lparr>clock := Suc (clock s)\<rparr>)")
    from Cons.IH [of "s\<lparr>clock := Suc (clock s)\<rparr>"] have "sub = take (length sub) tasks"
      by (simp add: r)
    with False show ?thesis
      by (simp add: is_set_def r)
  qed
qed

lemma submit_tasks_all:
  "(\<And>k. k < length tasks \<Longrightarrow> \<not> stop_readings e (clock s + k)) \<Longrightarrow>
   submit_tasks e tasks s = (tasks, s\<lparr>clock := clock s + length tasks\<rparr>)"
proof (induction tasks arbitrary: s)
  case Nil
  then show ?case by simp
next
  case (Cons task tasks)
  have "\<not> stop_readings e (clock s + 0)"
    by (rule Cons.prems) simp
  then have now: "\<not> stop_readings e (clock s)"
    by simp
  have "\<And>k. k < length tasks \<Longrightarrow> \<not> stop_readings e (clock (s\<lparr>clock := Suc (clock s)\<rparr>) + k)"
  proof -
    fix k assume "k < length tasks"
    then have "Suc k < length (task # tasks)" by simp
    then have "\<not> stop_readings e (clock s + Suc k)" by (rule Cons.prems)
    then show "\<not> stop_readings e (clock (s\<lparr>clock := Suc (clock s)\<rparr>) + k)" by simp
  qed
  then have "submit_tasks e tasks (s\<lparr>clock := Suc (clock s)\<rparr>) =
      (tasks, s\<lparr>clock := Suc (clock s)\<rparr>\<lparr>clock := clock (s\<lparr>clock := Suc (clock s)\<rparr>) + length tasks\<rparr>)"
    by (rule Cons.IH)
  with now show ?case
    by (simp add: is_set_def)
qed

lemma task_list_length: "length (task_list left right) = min (length left) (length right)"
  by (simp add: task_list_def)

lemma task_list_nth:
  "i < min (length left) (length right) \<Longrightarrow> task_list left right ! i = (i, left ! i, right ! i)"
  by (simp add: task_list_def)




section \<open>Effects of the measurements\<close>

lemma is_set_simps [simp]:
  "fst (is_set e s) = stop_readings e (clock s)"
  "clock (snd (is_set e s)) = Suc (clock s)"
  "trace (snd (is_set e s)) = trace s"
  by (simp_all add: is_set_def)

lemma emit_simps [simp]:
  "clock (emit ev s) = clock s"
  "trace (emit ev s) = trace s @ [ev]"
  by (simp_all add: emit_def)

lemma update_progress_simps [simp]:
  "clock (update_progress row_idx ty v s) = clock s"
  "trace (update_progress row_idx ty v s) = trace s @ [Progress row_idx ty v]"
  by (simp_all add: update_progress_def)

lemma extract_ffmpeg_progress_clock [simp]:
  "clock (extract_ffmpeg_progress line row_idx mt ct tf s) = clock s"
  by (simp add: extract_ffmpeg_progress_def extract_ffmpeg_progress_body_def Let_def
      split: option.splits sum.splits)

lemma monitor_clock:
  assumes "\<And>out s. clock (on_line out s) = clock s"
  shows "clock s < clock (snd (monitor e on_line outs acc s))"
proof (induction outs arbitrary: acc s)
  case Nil
  show ?case
    by (cases "is_set e s") (simp add: is_set_def split: if_splits)
next
  case (Cons out outs)
  obtain stop s1 where r: "is_set e s = (stop, s1)"
    by (cases "is_set e s")
  have c1: "clock s1 = Suc (clock s)"
    using is_set_simps(2) [of e s] unfolding r by simp
  show ?case
  proof (cases stop)
    case True
    with r c1 show ?thesis by simp
  next
    case False
    show ?thesis
    proof (cases "out = []")
      case True
      have "clock s1 < clock (snd (monitor e on_line outs acc s1))"
        by (rule Cons.IH)
      with r False True c1 show ?thesis by simp
    next
      case ne: False
      have "clock (on_line out s1) < clock (snd (monitor e on_line outs (acc @ out) (on_line out s1)))"
        by (rule Cons.IH)
      with r False ne c1 assms [of out s1] show ?thesis by simp
    qed
  qed
qed

lemma monitor_plain_trace:
  "trace (snd (monitor e (\<lambda>out s. s) outs acc s)) = trace s"
proof (induction outs arbitrary: acc s)
  case Nil
  show ?case
    by (cases "is_set e s") (simp add: is_set_def split: if_splits)
next
  case (Cons out outs)
  obtain stop s1 where r: "is_set e s = (stop, s1)"
    by (cases "is_set e s")
  have t1: "trace s1 = trace s"
    using is_set_simps(3) [of e s] unfolding r by simp
  show ?case
    using Cons.IH [of acc s1] Cons.IH [of "acc @ out" s1] t1
    by (simp add: r)
qed

lemma monitor_plain:
  "monitor e (\<lambda>out s. s) outs acc s = (r, s') \<Longrightarrow> clock s < clock s' \<and> trace s' = trace s"
  using monitor_clock [of "\<lambda>out s. s" s e outs acc] monitor_plain_trace [of e outs acc s]
  by simp

lemma calls_of_append [simp]: "calls_of f (xs @ ys) = calls_of f xs @ calls_of f ys"
  by (induction f xs rule: calls_of.induct) simp_all

lemma get_audio_loudness_effect:
  "get_audio_loudness e path s = (r, s') \<Longrightarrow>
   clock s < clock s' \<and>
   calls_of f (trace s') =
     calls_of f (trace s) @ (if f = ''get_audio_loudness'' then [[path]] else [])"
  unfolding get_audio_loudness_def Let_def
  by (auto split: sum.splits prod.splits option.splits if_splits simp: is_set_def
      dest!: monitor_plain)

lemma popens_append [simp]: "popens (xs @ ys) = popens xs @ popens ys"
  by (induction xs rule: popens.induct) simp_all

lemma get_audio_loudness_popens:
  "get_audio_loudness e path s = (r, s') \<Longrightarrow>
   popens (trace s') = popens (trace s) \<or>
   popens (trace s') = popens (trace s) @ [loudness_cmd path]"
  unfolding get_audio_loudness_def Let_def
  by (auto split: sum.splits prod.splits option.splits if_splits simp: is_set_def
      dest!: monitor_plain)

section \<open>The audio fallback: properties\<close>

text \<open>The outcome of the fallback, in terms of what its steps give.\<close>

lemma fallback_steps:
  assumes s1: "s1 = snd (is_set e s)"
    and l: "get_audio_loudness e lf s1 = (ll, s2)"
    and s3: "s3 = snd (is_set e s2)"
    and r: "get_audio_loudness e rf s3 = (rl, s4)"
    and s5: "s5 = snd (is_set e s4)"
  shows "run_audio_analysis_fallback e lf rf s =
     (if stop_readings e (clock s) then (tie_result, s1)
      else if stop_readings e (clock s2) then (tie_result, s3)
      else if stop_readings e (clock s4) then (tie_result, s5)
      else (case ll of
              None \<Rightarrow> tie_result
            | Some a \<Rightarrow>
                (case rl of
                   None \<Rightarrow> tie_result
                 | Some b \<Rightarrow>
                     [''winner'' \<mapsto> PStr (if \<bar>a - b\<bar> < 1 then ''tie''
                                            else if a > b then ''left'' else ''right''),
                      ''left_score'' \<mapsto> PNum a, ''right_score'' \<mapsto> PNum b]), s5))"
proof -
  have i1: "is_set e s = (stop_readings e (clock s), s1)"
    unfolding s1 by (simp add: is_set_def)
  have i3: "is_set e s2 = (stop_readings e (clock s2), s3)"
    unfolding s3 by (simp add: is_set_def)
  have i5: "is_set e s4 = (stop_readings e (clock s4), s5)"
    unfolding s5 by (simp add: is_set_def)
  show ?thesis
    unfolding run_audio_analysis_fallback_def i1 prod.case l i3 r i5 Let_def
    by (simp split: option.splits)
qed





section \<open>The row comparator: properties\<close>

lemma compare_row_steps:
  assumes m: "current_metric e = Inr metric"
    and s1: "s1 = update_progress row_idx ''video'' 0 (snd (is_set e s))"
    and v: "run_video_comparison e lf rf metric row_idx s1 = (vr, s2)"
    and s3: "s3 = update_progress row_idx ''audio'' 0
                    (update_progress row_idx ''video'' 100 (snd (is_set e s2)))"
    and a: "run_audio_comparison e lf rf row_idx s3 = (ar, s4)"
  shows "compare_row e row_idx lf rf s =
     (if stop_readings e (clock s) then (None, snd (is_set e s))
      else if stop_readings e (clock s2) then (None, snd (is_set e s2))
      else if stop_readings e (clock s4) then (None, snd (is_set e s4))
      else (Some [''video_winner'' \<mapsto> dict_get vr ''winner'' (PStr ''tie''),
                  ''audio_winner'' \<mapsto> dict_get ar ''winner'' (PStr ''tie''),
                  ''video_score_left'' \<mapsto> dict_get vr ''left_score'' (PNum 0),
                  ''video_score_right'' \<mapsto> dict_get vr ''right_score'' (PNum 0),
                  ''audio_score_left'' \<mapsto> dict_get ar ''left_score'' (PNum 0),
                  ''audio_score_right'' \<mapsto> dict_get ar ''right_score'' (PNum 0)],
            update_progress row_idx ''audio'' 100 (snd (is_set e s4))))"
proof -
  have i1: "is_set e s = (stop_readings e (clock s), snd (is_set e s))"
    by (simp add: is_set_def)
  have i2: "is_set e s2 = (stop_readings e (clock s2), snd (is_set e s2))"
    by (simp add: is_set_def)
  have i4: "is_set e s4 = (stop_readings e (clock s4), snd (is_set e s4))"
    by (simp add: is_set_def)
  have v': "run_video_comparison e lf rf metric row_idx
      (update_progress row_idx ''video'' 0 (snd (is_set e s))) = (vr, s2)"
    using v unfolding s1 .
  have a': "run_audio_comparison e lf rf row_idx
      (update_progress row_idx ''audio'' 0
         (update_progress row_idx ''video'' 100 (snd (is_set e s2)))) = (ar, s4)"
    using a unfolding s3 .
  show ?thesis
    apply (subst compare_row_def)
    apply (subst i1)
    apply (simp only: prod.case m sum.case v')
    apply (subst i2)
    apply (simp only: prod.case a')
    apply (subst i4)
    apply (simp only: prod.case)
    done
qed


lemma row_dict_dom:
  "dom [''video_winner'' \<mapsto> a, ''audio_winner'' \<mapsto> b, ''video_score_left'' \<mapsto> c,
        ''video_score_right'' \<mapsto> d, ''audio_score_left'' \<mapsto> f, ''audio_score_right'' \<mapsto> g]
   = {''video_winner'', ''audio_winner'', ''video_score_left'', ''video_score_right'',
      ''audio_score_left'', ''audio_score_right''}"
  by (simp only: dom_fun_upd dom_empty option.distinct if_False insert_commute)

lemma compare_row_stopped:
  "stop_readings e (clock s) \<Longrightarrow> fst (compare_row e row_idx lf rf s) = None"
  by (simp add: compare_row_def is_set_def)

lemma compare_row_no_metric:
  "current_metric e = Inl err \<Longrightarrow> fst (compare_row e row_idx lf rf s) = None"
  by (simp add: compare_row_def is_set_def)

text \<open>
  C6. The comparison of a row returns \<open>None\<close> or a dictionary with exactly the six
  keys. It returns \<open>None\<close> when the stop flag is set at one of its three reads of the
  flag (on entry, after the video comparison, after the audio comparison), and when
  reading the metric selector raises. With a flag that stays set once it is set, it
  returns \<open>None\<close> whenever the flag was set at any read up to the end of the row. When
  none of the three reads sees the flag and the metric is read, the result is the
  dictionary of the winners and scores of the video and the audio result.
\<close>

theorem row_result_complete:
  "(let (res, s') = compare_row e row_idx left_file right_file s
    in (res = None \<or>
        (\<exists>d. res = Some d \<and>
              dom d = {''video_winner'', ''audio_winner'', ''video_score_left'',
                       ''video_score_right'', ''audio_score_left'', ''audio_score_right''})) \<and>
       (stop_readings e (clock s) \<longrightarrow> res = None) \<and>
       ((\<exists>err. current_metric e = Inl err) \<longrightarrow> res = None) \<and>
       ((\<forall>i j. i \<le> j \<and> stop_readings e i \<longrightarrow> stop_readings e j) \<and>
        (\<exists>k. clock s \<le> k \<and> k < clock s' \<and> stop_readings e k) \<longrightarrow> res = None) \<and>
       (\<forall>metric. current_metric e = Inr metric \<longrightarrow>
          (let (video_result, s2) =
                 run_video_comparison e left_file right_file metric row_idx
                   (update_progress row_idx ''video'' 0 (snd (is_set e s)));
               (audio_result, s4) =
                 run_audio_comparison e left_file right_file row_idx
                   (update_progress row_idx ''audio'' 0
                      (update_progress row_idx ''video'' 100 (snd (is_set e s2))))
           in (stop_readings e (clock s2) \<longrightarrow> res = None) \<and>
              (stop_readings e (clock s4) \<longrightarrow> res = None) \<and>
              (\<not> stop_readings e (clock s) \<and> \<not> stop_readings e (clock s2) \<and>
               \<not> stop_readings e (clock s4) \<longrightarrow>
                 res = Some [''video_winner'' \<mapsto> dict_get video_result ''winner'' (PStr ''tie''),
                             ''audio_winner'' \<mapsto> dict_get audio_result ''winner'' (PStr ''tie''),
                             ''video_score_left'' \<mapsto> dict_get video_result ''left_score'' (PNum 0),
                             ''video_score_right'' \<mapsto> dict_get video_result ''right_score'' (PNum 0),
                             ''audio_score_left'' \<mapsto> dict_get audio_result ''left_score'' (PNum 0),
                             ''audio_score_right'' \<mapsto> dict_get audio_result ''right_score'' (PNum 0)]))))"
proof -
  obtain res s' where r: "compare_row e row_idx left_file right_file s = (res, s')"
    by (cases "compare_row e row_idx left_file right_file s")
  have stop1: "res = None" if "stop_readings e (clock s)"
    using compare_row_stopped [OF that, of row_idx left_file right_file] unfolding r by simp
  let ?keys = "{''video_winner'', ''audio_winner'', ''video_score_left'',
                ''video_score_right'', ''audio_score_left'', ''audio_score_right''}"
  let ?mono = "\<forall>i j. i \<le> j \<and> stop_readings e i \<longrightarrow> stop_readings e j"
  show ?thesis
  proof (cases "current_metric e")
    case (Inl err)
    have none: "res = None"
      using compare_row_no_metric [OF Inl, of row_idx left_file right_file s] unfolding r by simp
    have no_metric: "\<forall>metric. current_metric e = Inr metric \<longrightarrow> P metric" for P
      using Inl by simp
    show ?thesis
      unfolding r Let_def prod.case using none no_metric by simp
  next
    case (Inr metric)
    define s1 where "s1 = update_progress row_idx ''video'' 0 (snd (is_set e s))"
    obtain vr s2 where v: "run_video_comparison e left_file right_file metric row_idx s1 = (vr, s2)"
      by (cases "run_video_comparison e left_file right_file metric row_idx s1")
    define s3 where "s3 = update_progress row_idx ''audio'' 0
                    (update_progress row_idx ''video'' 100 (snd (is_set e s2)))"
    obtain ar s4 where a: "run_audio_comparison e left_file right_file row_idx s3 = (ar, s4)"
      by (cases "run_audio_comparison e left_file right_file row_idx s3")
    define full where "full =
       [''video_winner'' \<mapsto> dict_get vr ''winner'' (PStr ''tie''),
        ''audio_winner'' \<mapsto> dict_get ar ''winner'' (PStr ''tie''),
        ''video_score_left'' \<mapsto> dict_get vr ''left_score'' (PNum 0),
        ''video_score_right'' \<mapsto> dict_get vr ''right_score'' (PNum 0),
        ''audio_score_left'' \<mapsto> dict_get ar ''left_score'' (PNum 0),
        ''audio_score_right'' \<mapsto> dict_get ar ''right_score'' (PNum 0)]"
    have dom_full: "dom full = ?keys"
      unfolding full_def by (rule row_dict_dom)
    note steps = compare_row_steps [OF Inr s1_def v s3_def a, folded full_def, unfolded r]
    have stop2: "res = None" if "stop_readings e (clock s2)"
      using steps that by (simp split: if_splits)
    have stop3: "res = None" if "stop_readings e (clock s4)"
      using steps that by (simp split: if_splits)
    have ok: "res = Some full \<and> clock s' = Suc (clock s4)"
      if "\<not> stop_readings e (clock s)" "\<not> stop_readings e (clock s2)"
        "\<not> stop_readings e (clock s4)"
      using steps that by simp
    have cases4: "stop_readings e (clock s) \<or> stop_readings e (clock s2) \<or>
        stop_readings e (clock s4) \<or>
        (\<not> stop_readings e (clock s) \<and> \<not> stop_readings e (clock s2) \<and>
         \<not> stop_readings e (clock s4))"
      by blast
    have c1: "res = None \<or> (\<exists>d. res = Some d \<and> dom d = ?keys)"
      using cases4 stop1 stop2 stop3 ok dom_full by blast
    have c2: "stop_readings e (clock s) \<longrightarrow> res = None"
      using stop1 by blast
    have c3: "(\<exists>err. current_metric e = Inl err) \<longrightarrow> res = None"
      using Inr by simp
    have c4: "?mono \<and> (\<exists>k. clock s \<le> k \<and> k < clock s' \<and> stop_readings e k) \<longrightarrow> res = None"
    proof
      assume h: "?mono \<and> (\<exists>k. clock s \<le> k \<and> k < clock s' \<and> stop_readings e k)"
      then obtain k where k: "k < clock s'" "stop_readings e k" and mono: ?mono
        by blast
      show "res = None"
      proof (rule ccontr)
        assume "res \<noteq> None"
        with stop1 stop2 stop3 have ns: "\<not> stop_readings e (clock s)"
          "\<not> stop_readings e (clock s2)" "\<not> stop_readings e (clock s4)"
          by blast+
        then have "clock s' = Suc (clock s4)"
          using ok by blast
        with k have "k \<le> clock s4"
          by simp
        with mono k have "stop_readings e (clock s4)"
          by blast
        with ns show False
          by blast
      qed
    qed
    have c5: "\<forall>m. current_metric e = Inr m \<longrightarrow>
          (let (video_result, s2) =
                 run_video_comparison e left_file right_file m row_idx
                   (update_progress row_idx ''video'' 0 (snd (is_set e s)));
               (audio_result, s4) =
                 run_audio_comparison e left_file right_file row_idx
                   (update_progress row_idx ''audio'' 0
                      (update_progress row_idx ''video'' 100 (snd (is_set e s2))))
           in (stop_readings e (clock s2) \<longrightarrow> res = None) \<and>
              (stop_readings e (clock s4) \<longrightarrow> res = None) \<and>
              (\<not> stop_readings e (clock s) \<and> \<not> stop_readings e (clock s2) \<and>
               \<not> stop_readings e (clock s4) \<longrightarrow>
                 res = Some [''video_winner'' \<mapsto> dict_get video_result ''winner'' (PStr ''tie''),
                             ''audio_winner'' \<mapsto> dict_get audio_result ''winner'' (PStr ''tie''),
                             ''video_score_left'' \<mapsto> dict_get video_result ''left_score'' (PNum 0),
                             ''video_score_right'' \<mapsto> dict_get video_result ''right_score'' (PNum 0),
                             ''audio_score_left'' \<mapsto> dict_get audio_result ''left_score'' (PNum 0),
                             ''audio_score_right'' \<mapsto> dict_get audio_result ''right_score'' (PNum 0)]))"
    proof (intro allI impI)
      fix m assume "current_metric e = Inr m"
      with Inr have mm: "m = metric"
        by simp
      have "(stop_readings e (clock s2) \<longrightarrow> res = None) \<and>
              (stop_readings e (clock s4) \<longrightarrow> res = None) \<and>
              (\<not> stop_readings e (clock s) \<and> \<not> stop_readings e (clock s2) \<and>
               \<not> stop_readings e (clock s4) \<longrightarrow> res = Some full)"
        using stop2 stop3 ok by blast
      then show "(let (video_result, s2) =
                 run_video_comparison e left_file right_file m row_idx
                   (update_progress row_idx ''video'' 0 (snd (is_set e s)));
               (audio_result, s4) =
                 run_audio_comparison e left_file right_file row_idx
                   (update_progress row_idx ''audio'' 0
                      (update_progress row_idx ''video'' 100 (snd (is_set e s2))))
           in (stop_readings e (clock s2) \<longrightarrow> res = None) \<and>
              (stop_readings e (clock s4) \<longrightarrow> res = None) \<and>
              (\<not> stop_readings e (clock s) \<and> \<not> stop_readings e (clock s2) \<and>
               \<not> stop_readings e (clock s4) \<longrightarrow>
                 res = Some [''video_winner'' \<mapsto> dict_get video_result ''winner'' (PStr ''tie''),
                             ''audio_winner'' \<mapsto> dict_get audio_result ''winner'' (PStr ''tie''),
                             ''video_score_left'' \<mapsto> dict_get video_result ''left_score'' (PNum 0),
                             ''video_score_right'' \<mapsto> dict_get video_result ''right_score'' (PNum 0),
                             ''audio_score_left'' \<mapsto> dict_get audio_result ''left_score'' (PNum 0),
                             ''audio_score_right'' \<mapsto> dict_get audio_result ''right_score'' (PNum 0)]))"
        unfolding mm Let_def s1_def [symmetric] v prod.case s3_def [symmetric] a full_def .
    qed
    from c1 c2 c3 c4 c5 show ?thesis
      unfolding r Let_def prod.case by (intro conjI)
  qed
qed

theorem row_result_complete_witness:
  "(\<exists>d. fst (compare_row example_env 0 ''l0'' ''r0'' initial_state) = Some d \<and>
        dom d = {''video_winner'', ''audio_winner'', ''video_score_left'',
                 ''video_score_right'', ''audio_score_left'', ''audio_score_right''}) \<and>
   fst (compare_row (example_env\<lparr>stop_readings := (\<lambda>k. 20 \<le> k)\<rparr>) 0 ''l0'' ''r0'' initial_state)
     = None \<and>
   fst (compare_row (example_env\<lparr>current_metric := Inl RuntimeError\<rparr>) 0 ''l0'' ''r0''
         initial_state) = None"
proof -
  let ?keys = "{''video_winner'', ''audio_winner'', ''video_score_left'',
                 ''video_score_right'', ''audio_score_left'', ''audio_score_right''}"
  have st: "\<not> stop_readings example_env k" for k
    by (simp add: example_env_def)
  have m: "current_metric example_env = Inr ''VMAF''"
    by (simp add: example_env_def)
  note t = row_result_complete [of example_env 0 "''l0''" "''r0''" initial_state,
      unfolded Let_def split_def]
  from t have dich: "fst (compare_row example_env 0 ''l0'' ''r0'' initial_state) = None \<or>
      (\<exists>d. fst (compare_row example_env 0 ''l0'' ''r0'' initial_state) = Some d \<and> dom d = ?keys)"
    by (elim conjE)
  note some = t [THEN conjunct2, THEN conjunct2, THEN conjunct2, THEN conjunct2, THEN spec,
      THEN mp, OF m, THEN conjunct2, THEN conjunct2, THEN mp, OF conjI [OF st conjI [OF st st]]]
  have "fst (compare_row example_env 0 ''l0'' ''r0'' initial_state) \<noteq> None"
    unfolding some by (rule option.distinct)
  with dich have a: "\<exists>d. fst (compare_row example_env 0 ''l0'' ''r0'' initial_state) = Some d \<and>
      dom d = ?keys"
    by blast
  note t2 = row_result_complete [of "example_env\<lparr>stop_readings := (\<lambda>k. 20 \<le> k)\<rparr>" 0
      "''l0''" "''r0''" initial_state, unfolded Let_def split_def]
  have mono: "\<forall>i j. i \<le> j \<and> stop_readings (example_env\<lparr>stop_readings := (\<lambda>k. 20 \<le> k)\<rparr>) i
      \<longrightarrow> stop_readings (example_env\<lparr>stop_readings := (\<lambda>k. 20 \<le> k)\<rparr>) j"
    by simp
  have cl: "clock (snd (compare_row (example_env\<lparr>stop_readings := (\<lambda>k. 20 \<le> k)\<rparr>) 0
      ''l0'' ''r0'' initial_state)) = 23"
    by code_simp
  have obs: "\<exists>k. clock initial_state \<le> k \<and>
      k < clock (snd (compare_row (example_env\<lparr>stop_readings := (\<lambda>k. 20 \<le> k)\<rparr>) 0
      ''l0'' ''r0'' initial_state)) \<and>
      stop_readings (example_env\<lparr>stop_readings := (\<lambda>k. 20 \<le> k)\<rparr>) k"
    unfolding cl by (rule exI [of _ 20]) (simp add: initial_state_def)
  from t2 have "(\<forall>i j. i \<le> j \<and> stop_readings (example_env\<lparr>stop_readings := (\<lambda>k. 20 \<le> k)\<rparr>) i
      \<longrightarrow> stop_readings (example_env\<lparr>stop_readings := (\<lambda>k. 20 \<le> k)\<rparr>) j) \<and>
      (\<exists>k. clock initial_state \<le> k \<and>
      k < clock (snd (compare_row (example_env\<lparr>stop_readings := (\<lambda>k. 20 \<le> k)\<rparr>) 0
      ''l0'' ''r0'' initial_state)) \<and>
      stop_readings (example_env\<lparr>stop_readings := (\<lambda>k. 20 \<le> k)\<rparr>) k) \<longrightarrow>
      fst (compare_row (example_env\<lparr>stop_readings := (\<lambda>k. 20 \<le> k)\<rparr>) 0 ''l0'' ''r0''
        initial_state) = None"
    by (elim conjE)
  with mono obs have b: "fst (compare_row (example_env\<lparr>stop_readings := (\<lambda>k. 20 \<le> k)\<rparr>) 0
      ''l0'' ''r0'' initial_state) = None"
    by (elim impE) (intro conjI)
  note t3 = row_result_complete [of "example_env\<lparr>current_metric := Inl RuntimeError\<rparr>" 0
      "''l0''" "''r0''" initial_state, unfolded Let_def split_def]
  have err: "\<exists>err. current_metric (example_env\<lparr>current_metric := Inl RuntimeError\<rparr>) = Inl err"
    by simp
  from t3 have "(\<exists>err. current_metric (example_env\<lparr>current_metric := Inl RuntimeError\<rparr>) = Inl err)
      \<longrightarrow> fst (compare_row (example_env\<lparr>current_metric := Inl RuntimeError\<rparr>) 0 ''l0'' ''r0''
         initial_state) = None"
    by (elim conjE)
  with err have c: "fst (compare_row (example_env\<lparr>current_metric := Inl RuntimeError\<rparr>) 0
      ''l0'' ''r0'' initial_state) = None"
    by (elim impE)
  from a b c show ?thesis
    by (intro conjI)
qed

end
